theory Spec2Isabelle
  imports Complex_Main "HOL-Library.Log_Nat" "HOL-Library.Sublist" "HOL-Library.Multiset"
begin

section \<open>Python floats: IEEE 754 binary64 with round-to-nearest-even\<close>

text \<open>
  Every price, cost basis and PnL of \<^verbatim>\<open>bot.py\<close> is a Python \<^verbatim>\<open>float\<close>: a finite number
  \<open>m * 2 ^ e\<close> with \<open>\<bar>m\<bar> < 2 ^ 53\<close> and \<open>- 1074 \<le> e \<le> 971\<close>, plus or minus infinity, or NaN.
  An arithmetic operation on finite floats returns the exact result rounded to the nearest
  float, ties to the even mantissa; results of magnitude \<open>2 ^ 1024\<close> or more after rounding
  overflow to infinity, and below \<open>2 ^ - 1022\<close> the spacing stays \<open>2 ^ - 1074\<close> (gradual
  underflow). The two zeros are one value here: no comparison, sum or product of the
  program tells them apart, and the amounts of the share text are printed from absolute
  values.
\<close>

datatype pyfloat = Fin real | PInf | NInf | NaN

definition ilog2 :: "real \<Rightarrow> int" where
  \<comment> \<open>for \<open>0 < a\<close>: the exponent \<open>e\<close> with \<open>2 ^ e \<le> a < 2 ^ (e + 1)\<close>\<close>
  "ilog2 a = (if 1 \<le> a then bitlen \<lfloor>a\<rfloor> - 1 else - bitlen (\<lceil>1 / a\<rceil> - 1))"

definition pow2 :: "int \<Rightarrow> real" where
  "pow2 e = (if 0 \<le> e then 2 ^ nat e else 1 / 2 ^ nat (- e))"

definition round_half_even :: "real \<Rightarrow> int" where
  "round_half_even x =
     (let f = \<lfloor>x\<rfloor>; r = x - of_int f
      in if r < 1 / 2 then f else if 1 / 2 < r then f + 1 else if even f then f else f + 1)"

definition round64 :: "real \<Rightarrow> pyfloat" where
  \<comment> \<open>53 significant bits: the spacing at exponent \<open>e\<close> is \<open>2 ^ (e - 52)\<close>, and the exponent
      is at least \<open>- 1022\<close>\<close>
  "round64 x =
     (if x = 0 then Fin 0
      else let e = max (ilog2 \<bar>x\<bar>) (- 1022);
               q = pow2 (e - 52);
               y = of_int (round_half_even (\<bar>x\<bar> / q)) * q
           in if pow2 1024 \<le> y then (if 0 < x then PInf else NInf) else Fin (sgn x * y))"

definition is_float64 :: "real \<Rightarrow> bool" where
  \<comment> \<open>the real numbers that are floats\<close>
  "is_float64 x = (round64 x = Fin x)"

fun is_pyfloat :: "pyfloat \<Rightarrow> bool" where
  "is_pyfloat (Fin x) = is_float64 x"
| "is_pyfloat v = True"

fun fneg :: "pyfloat \<Rightarrow> pyfloat" where
  "fneg (Fin x) = Fin (- x)"
| "fneg PInf = NInf"
| "fneg NInf = PInf"
| "fneg NaN = NaN"

fun fabs :: "pyfloat \<Rightarrow> pyfloat" where
  \<comment> \<open>\<^verbatim>\<open>abs(x)\<close>\<close>
  "fabs (Fin x) = Fin \<bar>x\<bar>"
| "fabs NaN = NaN"
| "fabs v = PInf"

fun fadd :: "pyfloat \<Rightarrow> pyfloat \<Rightarrow> pyfloat" where
  "fadd (Fin x) (Fin y) = round64 (x + y)"
| "fadd NaN v = NaN"
| "fadd u NaN = NaN"
| "fadd (Fin x) v = v"
| "fadd u (Fin y) = u"
| "fadd u v = (if u = v then u else NaN)"

definition fsub :: "pyfloat \<Rightarrow> pyfloat \<Rightarrow> pyfloat" where
  "fsub u v = fadd u (fneg v)"

fun fmul :: "pyfloat \<Rightarrow> pyfloat \<Rightarrow> pyfloat" where
  "fmul (Fin x) (Fin y) = round64 (x * y)"
| "fmul NaN v = NaN"
| "fmul u NaN = NaN"
| "fmul (Fin x) v = (if x = 0 then NaN else if (0 < x) = (v = PInf) then PInf else NInf)"
| "fmul u (Fin y) = (if y = 0 then NaN else if (0 < y) = (u = PInf) then PInf else NInf)"
| "fmul u v = (if u = v then PInf else NInf)"

fun fdiv :: "pyfloat \<Rightarrow> pyfloat \<Rightarrow> pyfloat" where
  \<comment> \<open>Python raises ZeroDivisionError for a divisor 0; the one division of the program,
      \<^verbatim>\<open>0.5 / close_price_sol\<close>, is guarded by \<^verbatim>\<open>close_price_sol <= 0\<close>\<close>
  "fdiv (Fin x) (Fin y) = round64 (x / y)"
| "fdiv NaN v = NaN"
| "fdiv u NaN = NaN"
| "fdiv (Fin x) v = Fin 0"
| "fdiv u (Fin y) = (if (0 < y) = (u = PInf) then PInf else NInf)"
| "fdiv u v = NaN"

fun fle :: "pyfloat \<Rightarrow> pyfloat \<Rightarrow> bool" where
  \<comment> \<open>\<^verbatim>\<open>u <= v\<close>: false as soon as one side is NaN\<close>
  "fle (Fin x) (Fin y) = (x \<le> y)"
| "fle NaN v = False"
| "fle u NaN = False"
| "fle NInf v = True"
| "fle u PInf = True"
| "fle u v = False"

fun flt :: "pyfloat \<Rightarrow> pyfloat \<Rightarrow> bool" where
  \<comment> \<open>\<^verbatim>\<open>u < v\<close>\<close>
  "flt (Fin x) (Fin y) = (x < y)"
| "flt NaN v = False"
| "flt u NaN = False"
| "flt PInf v = False"
| "flt u NInf = False"
| "flt u v = True"

section \<open>Address validator\<close>

definition in_range :: "char \<Rightarrow> char \<Rightarrow> char \<Rightarrow> bool" where
  "in_range lo hi c = ((of_char lo :: nat) \<le> of_char c \<and> (of_char c :: nat) \<le> of_char hi)"

definition base58_class :: "char \<Rightarrow> bool" where
  \<comment> \<open>the character class \<^verbatim>\<open>[1-9A-HJ-NP-Za-km-z]\<close>\<close>
  "base58_class c =
     (in_range CHR ''1'' CHR ''9'' c \<or> in_range CHR ''A'' CHR ''H'' c \<or>
      in_range CHR ''J'' CHR ''N'' c \<or> in_range CHR ''P'' CHR ''Z'' c \<or>
      in_range CHR ''a'' CHR ''k'' c \<or> in_range CHR ''m'' CHR ''z'' c)"

definition dollar :: "string \<Rightarrow> bool" where
  \<comment> \<open>Python's \<^verbatim>\<open>$\<close> without MULTILINE, on the rest of the input: it matches at the end
      of the string and also just before a newline that ends the string\<close>
  "dollar rest = (rest = [] \<or> rest = [CHR 0x0A])"

fun class_plus_dollar :: "string \<Rightarrow> bool" where
  \<comment> \<open>\<^verbatim>\<open>[1-9A-HJ-NP-Za-km-z]+$\<close> from the current position, every split of \<^verbatim>\<open>+\<close> tried\<close>
  "class_plus_dollar [] = False"
| "class_plus_dollar (c # cs) = (base58_class c \<and> (dollar cs \<or> class_plus_dollar cs))"

definition re_match :: "string \<Rightarrow> bool" where
  \<comment> \<open>\<^verbatim>\<open>bool(re.match(r'^[1-9A-HJ-NP-Za-km-z]+$', address))\<close>\<close>
  "re_match address = class_plus_dollar address"

definition is_valid_solana_address :: "string \<Rightarrow> bool" where
  "is_valid_solana_address address =
     (if length address \<notin> {43, 44} then False else re_match address)"


section \<open>Strings\<close>

text \<open>
  A Python \<^verbatim>\<open>str\<close> is modelled as a \<^typ>\<open>string\<close> whose characters are the code points
  below 256; \<^verbatim>\<open>len\<close> is \<^const>\<open>length\<close>.
\<close>

definition is_space :: "char \<Rightarrow> bool" where
  \<comment> \<open>the code points below 256 that \<^verbatim>\<open>str.strip()\<close> removes\<close>
  "is_space c = ((of_char c :: nat) \<in> {9, 10, 11, 12, 13, 28, 29, 30, 31, 32, 133, 160})"

definition strip :: "string \<Rightarrow> string" where
  "strip s = rev (dropWhile is_space (rev (dropWhile is_space s)))"

definition username_or_anonymous :: "string option \<Rightarrow> string" where
  \<comment> \<open>\<^verbatim>\<open>update.effective_user.username or "Anonymous"\<close>: \<^verbatim>\<open>None\<close> and the empty string are falsy\<close>
  "username_or_anonymous u =
     (case u of None \<Rightarrow> ''Anonymous'' | Some n \<Rightarrow> if n = [] then ''Anonymous'' else n)"

definition digit_char :: "nat \<Rightarrow> char" where
  "digit_char d = ''0123456789'' ! d"

fun str_nat :: "nat \<Rightarrow> string" where
  "str_nat n = (if n < 10 then [digit_char n] else str_nat (n div 10) @ [digit_char (n mod 10)])"

declare str_nat.simps [simp del]

definition str_int :: "int \<Rightarrow> string" where
  "str_int i = (if i < 0 then CHR ''-'' # str_nat (nat (- i)) else str_nat (nat i))"

fun join :: "string \<Rightarrow> string list \<Rightarrow> string" where
  \<comment> \<open>\<^verbatim>\<open>sep.join(lines)\<close>\<close>
  "join sep [] = []"
| "join sep [l] = l"
| "join sep (l # m # ls) = l @ sep @ join sep (m # ls)"

fun group3 :: "string \<Rightarrow> string" where
  \<comment> \<open>on the digits from the least significant one: a comma after every third digit
      that has a digit after it\<close>
  "group3 (a # b # c # d # ds) = a # b # c # CHR '','' # group3 (d # ds)"
| "group3 ds = ds"

fun format_comma_2f :: "pyfloat \<Rightarrow> string" where
  \<comment> \<open>\<^verbatim>\<open>f"{x:,.2f}"\<close> for a float \<open>x \<ge> 0\<close>: the exact value rounded to two decimals,
      ties to even, thousands separated by commas\<close>
  "format_comma_2f (Fin x) =
     (let n = nat (round_half_even (x * 100))
      in rev (group3 (rev (str_nat (n div 100)))) @ ''.'' @
         [digit_char (n mod 100 div 10), digit_char (n mod 10)])"
| "format_comma_2f PInf = ''inf''"
| "format_comma_2f NInf = ''-inf''"
| "format_comma_2f NaN = ''nan''"

definition signed_dollars :: "pyfloat \<Rightarrow> string" where
  \<comment> \<open>\<^verbatim>\<open>sign = "+" if pnl >= 0 else "-"\<close>, \<^verbatim>\<open>abs_pnl = abs(pnl)\<close>, \<^verbatim>\<open>f"{sign}${abs_pnl:,.2f}"\<close>\<close>
  "signed_dollars pnl =
     (let sign = (if fle (Fin 0) pnl then ''+'' else ''-''); abs_pnl = fabs pnl
      in sign @ ''$'' @ format_comma_2f abs_pnl)"

subsection \<open>\<^verbatim>\<open>urllib.parse.quote\<close>\<close>

definition utf8_encode :: "char \<Rightarrow> string" where
  \<comment> \<open>UTF-8 of a code point below 256: one byte below 128, two bytes from 128 on\<close>
  "utf8_encode c =
     (let n = (of_char c :: nat)
      in if n < 128 then [c] else [char_of (192 + n div 64), char_of (128 + n mod 64)])"

definition always_safe :: "char \<Rightarrow> bool" where
  \<comment> \<open>\<^verbatim>\<open>_ALWAYS_SAFE\<close>: the ASCII letters and digits and \<^verbatim>\<open>_.-~\<close>\<close>
  "always_safe c =
     (in_range CHR ''A'' CHR ''Z'' c \<or> in_range CHR ''a'' CHR ''z'' c \<or>
      in_range CHR ''0'' CHR ''9'' c \<or> c \<in> set ''_.-~'')"

definition hex_digit :: "nat \<Rightarrow> char" where
  "hex_digit k = ''0123456789ABCDEF'' ! k"

definition quote_byte :: "char \<Rightarrow> string" where
  \<comment> \<open>the default \<^verbatim>\<open>safe='/'\<close>; every other byte becomes \<^verbatim>\<open>'%{:02X}'\<close>\<close>
  "quote_byte b =
     (if always_safe b \<or> b = CHR ''/'' then [b]
      else [CHR ''%'', hex_digit ((of_char b :: nat) div 16), hex_digit ((of_char b :: nat) mod 16)])"

definition quote :: "string \<Rightarrow> string" where
  "quote s = concat (map quote_byte (concat (map utf8_encode s)))"

definition reserved :: "char \<Rightarrow> bool" where
  \<comment> \<open>the reserved characters of RFC 3986: gen-delims and sub-delims\<close>
  "reserved c = (c \<in> set '':/?#[]@!$&()*+,;='' \<or> c = CHR 0x27)"

section \<open>The ledger: two MongoDB collections\<close>

record pick =
  chat_id :: int
  user_id :: int
  username :: string
  mint_address :: string
  cost_basis_usd :: pyfloat
  num_tokens :: pyfloat
  created_at :: nat

record wallet =
  wallet_chat_id :: int
  wallet_user_id :: int
  wallet_username :: string
  wallet_address :: string
  start_usd_value :: pyfloat
  wallet_created_at :: nat

record db =
  picks_collection :: "pick list"
  wallets_collection :: "wallet list"

text \<open>
  A collection is the list of its documents in insertion order, which is the order
  \<^verbatim>\<open>find\<close> returns them in. \<^verbatim>\<open>picks\<close> carries the unique index
  \<^verbatim>\<open>chat_mint_unique_index\<close> on \<^verbatim>\<open>(chat_id, mint_address)\<close>; \<^verbatim>\<open>wallets\<close> has no index.
\<close>

definition find_picks :: "db \<Rightarrow> int \<Rightarrow> pick list" where
  \<comment> \<open>\<^verbatim>\<open>list(picks_collection.find({"chat_id": chat_id}))\<close>\<close>
  "find_picks d chat = filter (\<lambda>p. chat_id p = chat) (picks_collection d)"

definition find_user_picks :: "db \<Rightarrow> int \<Rightarrow> int \<Rightarrow> pick list" where
  \<comment> \<open>\<^verbatim>\<open>list(picks_collection.find({"chat_id": chat_id, "user_id": user_id}))\<close>\<close>
  "find_user_picks d chat user =
     filter (\<lambda>p. chat_id p = chat \<and> user_id p = user) (picks_collection d)"

definition find_one_pick :: "db \<Rightarrow> int \<Rightarrow> string \<Rightarrow> pick option" where
  "find_one_pick d chat mint =
     List.find (\<lambda>p. chat_id p = chat \<and> mint_address p = mint) (picks_collection d)"

definition find_wallets :: "db \<Rightarrow> int \<Rightarrow> wallet list" where
  "find_wallets d chat = filter (\<lambda>w. wallet_chat_id w = chat) (wallets_collection d)"

definition find_one_wallet :: "db \<Rightarrow> int \<Rightarrow> string \<Rightarrow> wallet option" where
  "find_one_wallet d chat addr =
     List.find (\<lambda>w. wallet_chat_id w = chat \<and> wallet_address w = addr) (wallets_collection d)"

datatype db_error = DuplicateKeyError | ConnectionFailure

definition insert_one_pick :: "bool \<Rightarrow> db \<Rightarrow> pick \<Rightarrow> db_error + db" where
  \<comment> \<open>\<^verbatim>\<open>picks_collection.insert_one(pick_doc)\<close>: raises when the store is down and when
      the unique index already holds the key\<close>
  "insert_one_pick down d doc =
     (if down then Inl ConnectionFailure
      else if \<exists>p \<in> set (picks_collection d).
                chat_id p = chat_id doc \<and> mint_address p = mint_address doc
      then Inl DuplicateKeyError
      else Inr (d\<lparr>picks_collection := picks_collection d @ [doc]\<rparr>))"

definition insert_one_wallet :: "bool \<Rightarrow> db \<Rightarrow> wallet \<Rightarrow> db_error + db" where
  "insert_one_wallet down d doc =
     (if down then Inl ConnectionFailure
      else Inr (d\<lparr>wallets_collection := wallets_collection d @ [doc]\<rparr>))"

definition unique_picks :: "db \<Rightarrow> bool" where
  \<comment> \<open>the uniqueness invariant of the index\<close>
  "unique_picks d = distinct (map (\<lambda>p. (chat_id p, mint_address p)) (picks_collection d))"

definition float_picks :: "db \<Rightarrow> bool" where
  \<comment> \<open>the numbers stored with the positions are floats\<close>
  "float_picks d =
     (\<forall>p \<in> set (picks_collection d). is_pyfloat (cost_basis_usd p) \<and> is_pyfloat (num_tokens p))"

section \<open>The market data functions\<close>

text \<open>
  \<^verbatim>\<open>get_sol_price\<close>, \<^verbatim>\<open>get_latest_close_price_in_sol\<close> and \<^verbatim>\<open>get_wallet_balances\<close> catch
  every exception of their HTTP request and return \<^verbatim>\<open>0.0\<close>, \<^verbatim>\<open>0.0\<close> and \<^verbatim>\<open>[]\<close> then. What
  they return during one handler call is an input of the model, together with the clock
  and with whether the store refuses writes. A number of the response is taken as the float
  Python reads it as; \<^verbatim>\<open>float(...)\<close> of a candle's close also reads the texts \<^verbatim>\<open>inf\<close> and
  \<^verbatim>\<open>nan\<close>, and a product or sum of finite floats can overflow, so the infinities and NaN
  are among the values. Each handler returns the list of the market data calls it made, in
  order.
\<close>

type_synonym token_info = "string \<rightharpoonup> pyfloat"

record env =
  get_sol_price :: pyfloat
  get_latest_close_price_in_sol :: "string \<Rightarrow> pyfloat"
  get_wallet_balances :: "string \<Rightarrow> token_info list"
  utcnow :: nat
  store_down :: bool

datatype call =
    Call_get_sol_price
  | Call_get_latest_close_price_in_sol string
  | Call_get_wallet_balances string

definition dict_get :: "token_info \<Rightarrow> string \<Rightarrow> pyfloat \<Rightarrow> pyfloat" where
  \<comment> \<open>\<^verbatim>\<open>token_info.get(key, default)\<close>\<close>
  "dict_get d k dflt = (case d k of None \<Rightarrow> dflt | Some v \<Rightarrow> v)"

section \<open>The handlers\<close>

record token_item =
  item_username :: string
  item_mint :: string
  item_cost_basis_usd :: pyfloat
  item_current_price_usd :: pyfloat
  item_pnl :: pyfloat

record wallet_item =
  witem_username :: string
  witem_wallet_address :: string
  witem_net_worth_usd :: pyfloat
  witem_pnl_usd :: pyfloat

datatype reply =
    Reply_Welcome
  | Reply_Help
  | Reply_Echo string
    \<comment> \<open>\<^verbatim>\<open>You said: ...\<close>\<close>
  | Reply_AlreadyShilled string
    \<comment> \<open>\<^verbatim>\<open>This CA was already shilled here: ...\<close>\<close>
  | Reply_SolPriceError
    \<comment> \<open>\<^verbatim>\<open>Could not fetch SOL price ...\<close>, \<^verbatim>\<open>Error fetching SOL price ...\<close>\<close>
  | Reply_InvalidClosePrice string
    \<comment> \<open>\<^verbatim>\<open>Error: Invalid close price for CA: ...\<close>\<close>
  | Reply_InsertFailed
    \<comment> \<open>\<^verbatim>\<open>Could not add your pick ...\<close>, \<^verbatim>\<open>Could not register wallet ...\<close>\<close>
  | Reply_PickAdded pick
  | Reply_Usage
  | Reply_InvalidAddress
    \<comment> \<open>\<^verbatim>\<open>Invalid Solana address. Please try again.\<close>\<close>
  | Reply_WalletAlreadyRegistered
  | Reply_WalletRegistered wallet
  | Reply_NoPicks
    \<comment> \<open>\<^verbatim>\<open>No CA picks found ...\<close>\<close>
  | Reply_NoWallets
  | Reply_NoPicksForUser
    \<comment> \<open>\<^verbatim>\<open>No CA picks found for you here. Paste a CA first!\<close>\<close>
  | Reply_Leaderboard "(nat \<times> token_item) list"
  | Reply_SniperLeaderboard "(nat \<times> wallet_item) list"
  | Reply_ShareLink string

datatype outcome =
  Success | ValidationError | DuplicateKey | MarketDataUnavailable | PersistenceError | NoPositions

fun outcome_of :: "reply \<Rightarrow> outcome" where
  \<comment> \<open>the replies under the names the specification gives to the outcomes\<close>
  "outcome_of (Reply_Echo t) = ValidationError"
| "outcome_of Reply_InvalidAddress = ValidationError"
| "outcome_of Reply_Usage = ValidationError"
| "outcome_of (Reply_AlreadyShilled m) = DuplicateKey"
| "outcome_of Reply_WalletAlreadyRegistered = DuplicateKey"
| "outcome_of Reply_SolPriceError = MarketDataUnavailable"
| "outcome_of (Reply_InvalidClosePrice m) = MarketDataUnavailable"
| "outcome_of Reply_InsertFailed = PersistenceError"
| "outcome_of Reply_NoPicks = NoPositions"
| "outcome_of Reply_NoWallets = NoPositions"
| "outcome_of Reply_NoPicksForUser = NoPositions"
| "outcome_of r = Success"

subsection \<open>Shilling a contract address\<close>

definition handle_contract_address ::
  "db \<Rightarrow> env \<Rightarrow> int \<Rightarrow> int \<Rightarrow> string option \<Rightarrow> string \<Rightarrow> reply \<times> db \<times> call list" where
  "handle_contract_address d e chat user uname message_text =
     (let text = strip message_text
      in if \<not> is_valid_solana_address text then (Reply_Echo message_text, d, [])
         else
           let name = username_or_anonymous uname; mint = text
           in case find_one_pick d chat mint of
                Some existing_pick \<Rightarrow> (Reply_AlreadyShilled mint, d, [])
              | None \<Rightarrow>
                  let sol_price = get_sol_price e
                  in if fle sol_price (Fin 0) then (Reply_SolPriceError, d, [Call_get_sol_price])
                     else
                       let close_price_sol = get_latest_close_price_in_sol e mint;
                           calls = [Call_get_sol_price, Call_get_latest_close_price_in_sol mint]
                       in if fle close_price_sol (Fin 0) then (Reply_InvalidClosePrice mint, d, calls)
                          else
                            let pick_doc =
                                  \<lparr>chat_id = chat, user_id = user, username = name,
                                   mint_address = mint,
                                   cost_basis_usd = fmul (Fin (1 / 2)) sol_price,
                                   num_tokens = fdiv (Fin (1 / 2)) close_price_sol,
                                   created_at = utcnow e\<rparr>
                            in (case insert_one_pick (store_down e) d pick_doc of
                                  Inl err \<Rightarrow> (Reply_InsertFailed, d, calls)
                                | Inr d' \<Rightarrow> (Reply_PickAdded pick_doc, d', calls)))"

definition token_item_of :: "env \<Rightarrow> pyfloat \<Rightarrow> pick \<Rightarrow> token_item" where
  \<comment> \<open>the body of the loop of \<^verbatim>\<open>leaderboard_command\<close>\<close>
  "token_item_of e sol_price p =
     (let current_close_sol = get_latest_close_price_in_sol e (mint_address p);
          current_token_price_usd = fmul current_close_sol sol_price;
          current_value_usd = fmul (num_tokens p) current_token_price_usd;
          pnl = fsub current_value_usd (cost_basis_usd p)
      in \<lparr>item_username = username p, item_mint = mint_address p,
          item_cost_basis_usd = cost_basis_usd p,
          item_current_price_usd = current_token_price_usd, item_pnl = pnl\<rparr>)"

text \<open>
  \<^verbatim>\<open>xs.sort(key=k)\<close> is CPython's stable merge sort, which compares the keys with \<^verbatim>\<open><\<close> only.
  It first looks for the run the list starts with, by comparing neighbours: a list in which
  no element is less than the one before it is one ascending run and is left as it is. Any
  other list is sorted here by stable insertion. For keys without NaN, which \<^verbatim>\<open><\<close> orders
  totally, every stable sort returns the same list, so this is the list CPython returns;
  for a list with a NaN key that is not one ascending run the list CPython returns depends
  on its merge strategy, and nothing is proved below about the order in that case.
\<close>

fun ascending_run :: "('a \<Rightarrow> pyfloat) \<Rightarrow> 'a list \<Rightarrow> bool" where
  "ascending_run k (x # y # ys) = (\<not> flt (k y) (k x) \<and> ascending_run k (y # ys))"
| "ascending_run k xs = True"

fun insort_lt :: "('a \<Rightarrow> pyfloat) \<Rightarrow> 'a \<Rightarrow> 'a list \<Rightarrow> 'a list" where
  "insort_lt k x [] = [x]"
| "insort_lt k x (y # ys) = (if \<not> flt (k y) (k x) then x # y # ys else y # insort_lt k x ys)"

definition insertion_sort :: "('a \<Rightarrow> pyfloat) \<Rightarrow> 'a list \<Rightarrow> 'a list" where
  "insertion_sort k xs = foldr (insort_lt k) xs []"

definition list_sort :: "('a \<Rightarrow> pyfloat) \<Rightarrow> 'a list \<Rightarrow> 'a list" where
  "list_sort k xs = (if ascending_run k xs then xs else insertion_sort k xs)"

definition sort_reverse :: "('a \<Rightarrow> pyfloat) \<Rightarrow> 'a list \<Rightarrow> 'a list" where
  \<comment> \<open>\<^verbatim>\<open>xs.sort(key=k, reverse=True)\<close>: the list is reversed, sorted ascending, and
      reversed again, which keeps the sort stable\<close>
  "sort_reverse k xs = rev (list_sort k (rev xs))"

definition leaderboard_command :: "db \<Rightarrow> env \<Rightarrow> int \<Rightarrow> reply \<times> call list" where
  "leaderboard_command d e chat =
     (let sol_price = get_sol_price e
      in if fle sol_price (Fin 0) then (Reply_SolPriceError, [Call_get_sol_price])
         else
           let all_picks = find_picks d chat
           in if all_picks = [] then (Reply_NoPicks, [Call_get_sol_price])
              else
                let data_list = map (token_item_of e sol_price) all_picks;
                    sorted_list = sort_reverse item_pnl data_list
                in (Reply_Leaderboard (enumerate 1 (take 10 sorted_list)),
                    Call_get_sol_price #
                    map (\<lambda>p. Call_get_latest_close_price_in_sol (mint_address p)) all_picks))"

subsection \<open>The sniper bowl\<close>

definition register_wallet_command ::
  "db \<Rightarrow> env \<Rightarrow> int \<Rightarrow> int \<Rightarrow> string option \<Rightarrow> string list \<Rightarrow> reply \<times> db \<times> call list" where
  "register_wallet_command d e chat user uname args =
     (let name = username_or_anonymous uname
      in case args of
           [] \<Rightarrow> (Reply_Usage, d, [])
         | arg # _ \<Rightarrow>
             let address = strip arg
             in if \<not> is_valid_solana_address address then (Reply_InvalidAddress, d, [])
                else
                  (case find_one_wallet d chat address of
                     Some existing \<Rightarrow> (Reply_WalletAlreadyRegistered, d, [])
                   | None \<Rightarrow>
                       let sol_price = get_sol_price e
                       in if fle sol_price (Fin 0) then (Reply_SolPriceError, d, [Call_get_sol_price])
                          else
                            let doc =
                                  \<lparr>wallet_chat_id = chat, wallet_user_id = user,
                                   wallet_username = name, wallet_address = address,
                                   start_usd_value = fmul (Fin (1 / 2)) sol_price,
                                   wallet_created_at = utcnow e\<rparr>
                            in (case insert_one_wallet (store_down e) d doc of
                                  Inl err \<Rightarrow> (Reply_InsertFailed, d, [Call_get_sol_price])
                                | Inr d' \<Rightarrow>
                                    (Reply_WalletRegistered doc, d', [Call_get_sol_price]))))"

fun total_usd_loop :: "pyfloat \<Rightarrow> token_info list \<Rightarrow> pyfloat" where
  \<comment> \<open>\<^verbatim>\<open>for token_info in balances: total_usd += token_balance * token_price\<close>\<close>
  "total_usd_loop total_usd [] = total_usd"
| "total_usd_loop total_usd (token_info # balances) =
     (let token_price = dict_get token_info ''value'' (Fin 0);
          token_balance = dict_get token_info ''balance'' (Fin 0)
      in total_usd_loop (fadd total_usd (fmul token_balance token_price)) balances)"

definition wallet_item_of :: "env \<Rightarrow> wallet \<Rightarrow> wallet_item" where
  \<comment> \<open>the body of the outer loop of \<^verbatim>\<open>sniper_leaderboard_command\<close>\<close>
  "wallet_item_of e w =
     (let balances = get_wallet_balances e (wallet_address w);
          total_usd = total_usd_loop (Fin 0) balances;
          pnl_usd = fsub total_usd (start_usd_value w)
      in \<lparr>witem_username = wallet_username w, witem_wallet_address = wallet_address w,
          witem_net_worth_usd = total_usd, witem_pnl_usd = pnl_usd\<rparr>)"

definition sniper_leaderboard_command :: "db \<Rightarrow> env \<Rightarrow> int \<Rightarrow> reply \<times> call list" where
  "sniper_leaderboard_command d e chat =
     (let sol_price = get_sol_price e
      in if fle sol_price (Fin 0) then (Reply_SolPriceError, [Call_get_sol_price])
         else
           let all_wallets = find_wallets d chat
           in if all_wallets = [] then (Reply_NoWallets, [Call_get_sol_price])
              else
                let results = map (wallet_item_of e) all_wallets;
                    sorted_list = sort_reverse witem_pnl_usd results
                in (Reply_SniperLeaderboard (enumerate 1 (take 10 sorted_list)),
                    Call_get_sol_price #
                    map (\<lambda>w. Call_get_wallet_balances (wallet_address w)) all_wallets))"

subsection \<open>Sharing\<close>

fun share_loop ::
  "env \<Rightarrow> pyfloat \<Rightarrow> pick list \<Rightarrow> string list \<Rightarrow> pyfloat \<Rightarrow> string list \<times> pyfloat" where
  \<comment> \<open>the loop of \<^verbatim>\<open>share_command\<close> over \<^verbatim>\<open>user_picks\<close>, with its two accumulators\<close>
  "share_loop e sol_price [] lines total_pnl = (lines, total_pnl)"
| "share_loop e sol_price (p # user_picks) lines total_pnl =
     (let mint = mint_address p;
          current_close_sol = get_latest_close_price_in_sol e mint;
          current_price_usd = fmul current_close_sol sol_price;
          current_value_usd = fmul (num_tokens p) current_price_usd;
          pnl = fsub current_value_usd (cost_basis_usd p)
      in share_loop e sol_price user_picks
           (lines @ [mint @ '' => '' @ signed_dollars pnl]) (fadd total_pnl pnl))"

definition tweet_text_of :: "string \<Rightarrow> int \<Rightarrow> string list \<Rightarrow> pyfloat \<Rightarrow> string" where
  "tweet_text_of name chat lines total_pnl =
     name @ [CHR 0x27] @ ''s Picks (Chat '' @ str_int chat @ ''):'' @ [CHR 0x0A, CHR 0x0A] @
     join [CHR 0x0A] lines @
     [CHR 0x0A, CHR 0x0A] @ ''Total PnL: '' @ signed_dollars total_pnl @ [CHR 0x0A] @
     ''Shared via #SnipeChecksBot''"

definition twitter_link :: "string \<Rightarrow> string" where
  "twitter_link encoded_tweet = ''https://twitter.com/intent/tweet?text='' @ encoded_tweet"

definition share_command ::
  "db \<Rightarrow> env \<Rightarrow> int \<Rightarrow> int \<Rightarrow> string option \<Rightarrow> reply \<times> call list" where
  "share_command d e chat user uname =
     (let name = username_or_anonymous uname;
          user_picks = find_user_picks d chat user
      in if user_picks = [] then (Reply_NoPicksForUser, [])
         else
           let sol_price = get_sol_price e
           in if fle sol_price (Fin 0) then (Reply_SolPriceError, [Call_get_sol_price])
              else
                let (lines, total_pnl) = share_loop e sol_price user_picks [] (Fin 0);
                    tweet_text = tweet_text_of name chat lines total_pnl
                in (Reply_ShareLink (twitter_link (quote tweet_text)),
                    Call_get_sol_price #
                    map (\<lambda>p. Call_get_latest_close_price_in_sol (mint_address p)) user_picks))"

subsection \<open>Dispatch\<close>

datatype command =
    Cmd_start
  | Cmd_help
  | Cmd_leaderboard
  | Cmd_register_wallet "string list"
  | Cmd_sniper_leaderboard
  | Cmd_share
  | Text_message string

record update =
  effective_chat :: int
  effective_user :: int
  effective_username :: "string option"
  content :: command

definition dispatch :: "db \<Rightarrow> env \<Rightarrow> update \<Rightarrow> reply \<times> db \<times> call list" where
  \<comment> \<open>the handlers as \<^verbatim>\<open>main\<close> registers them\<close>
  "dispatch d e u =
     (let chat = effective_chat u; user = effective_user u; uname = effective_username u
      in case content u of
           Cmd_start \<Rightarrow> (Reply_Welcome, d, [])
         | Cmd_help \<Rightarrow> (Reply_Help, d, [])
         | Cmd_leaderboard \<Rightarrow>
             (let (r, calls) = leaderboard_command d e chat in (r, d, calls))
         | Cmd_register_wallet args \<Rightarrow> register_wallet_command d e chat user uname args
         | Cmd_sniper_leaderboard \<Rightarrow>
             (let (r, calls) = sniper_leaderboard_command d e chat in (r, d, calls))
         | Cmd_share \<Rightarrow> (let (r, calls) = share_command d e chat user uname in (r, d, calls))
         | Text_message t \<Rightarrow> handle_contract_address d e chat user uname t)"

fun run :: "db \<Rightarrow> (env \<times> update) list \<Rightarrow> db" where
  \<comment> \<open>the ledger after a sequence of updates, each handled under its own market data\<close>
  "run d [] = d"
| "run d ((e, u) # rest) = run (fst (snd (dispatch d e u))) rest"

section \<open>Example inputs\<close>

definition empty_db :: db where
  "empty_db = \<lparr>picks_collection = [], wallets_collection = []\<rparr>"

definition market_down :: env where
  "market_down =
     \<lparr>get_sol_price = Fin 0, get_latest_close_price_in_sol = (\<lambda>mint. Fin 0),
      get_wallet_balances = (\<lambda>address. []), utcnow = 0, store_down = False\<rparr>"

definition example_mint :: string where
  "example_mint = ''So11111111111111111111111111111111111111112''"

definition market_200 :: env where
  "market_200 =
     \<lparr>get_sol_price = Fin 200, get_latest_close_price_in_sol = (\<lambda>mint. Fin (1 / 4)),
      get_wallet_balances = (\<lambda>address. []), utcnow = 1000, store_down = False\<rparr>"

definition pick_200 :: pick where
  "pick_200 =
     \<lparr>chat_id = 1, user_id = 7, username = ''Anonymous'', mint_address = example_mint,
      cost_basis_usd = Fin 100, num_tokens = Fin 2, created_at = 1000\<rparr>"

definition db_200 :: db where
  "db_200 = \<lparr>picks_collection = [pick_200], wallets_collection = []\<rparr>"

definition update_shill :: update where
  "update_shill =
     \<lparr>effective_chat = 1, effective_user = 7, effective_username = None,
      content = Text_message example_mint\<rparr>"

definition mint_b :: string where
  "mint_b = ''EPjFWdd5AufqSSqeM2qN1xzybapC8G4wEGGkZwyTDt1v''"

definition mint_c :: string where
  "mint_c = ''Es9vMFrzaCERmJfrF4H2FYD4KCoNkY11McCe8BenwNYB''"

definition pick_a :: pick where
  "pick_a = \<lparr>chat_id = 1, user_id = 7, username = ''ann'', mint_address = example_mint,
              cost_basis_usd = Fin 100, num_tokens = Fin 2, created_at = 1000\<rparr>"

definition pick_b :: pick where
  "pick_b = \<lparr>chat_id = 1, user_id = 8, username = ''bob'', mint_address = mint_b,
              cost_basis_usd = Fin 100, num_tokens = Fin 4, created_at = 1001\<rparr>"

definition pick_c :: pick where
  "pick_c = \<lparr>chat_id = 1, user_id = 9, username = ''cyd'', mint_address = mint_c,
              cost_basis_usd = Fin 100, num_tokens = Fin 2, created_at = 1002\<rparr>"

definition wallet_a :: wallet where
  "wallet_a =
     \<lparr>wallet_chat_id = 1, wallet_user_id = 7, wallet_username = ''ann'',
      wallet_address = mint_b, start_usd_value = Fin 100, wallet_created_at = 1003\<rparr>"

definition wallet_b :: wallet where
  "wallet_b =
     \<lparr>wallet_chat_id = 1, wallet_user_id = 8, wallet_username = ''bob'',
      wallet_address = mint_c, start_usd_value = Fin 50, wallet_created_at = 1004\<rparr>"

definition db_board :: db where
  "db_board = \<lparr>picks_collection = [pick_a, pick_b, pick_c],
                wallets_collection = [wallet_a, wallet_b]\<rparr>"

definition market_board :: env where
  "market_board =
     \<lparr>get_sol_price = Fin 200, get_latest_close_price_in_sol = (\<lambda>mint. Fin (1 / 4)),
      get_wallet_balances = (\<lambda>address. [[''balance'' \<mapsto> Fin 3, ''value'' \<mapsto> Fin 10]]),
      utcnow = 2000, store_down = False\<rparr>"

definition item_a :: token_item where
  "item_a =
     \<lparr>item_username = ''ann'', item_mint = example_mint, item_cost_basis_usd = Fin 100,
      item_current_price_usd = Fin 50, item_pnl = Fin 0\<rparr>"

definition item_b :: token_item where
  "item_b = \<lparr>item_username = ''bob'', item_mint = mint_b, item_cost_basis_usd = Fin 100,
              item_current_price_usd = Fin 50, item_pnl = Fin 100\<rparr>"

definition item_c :: token_item where
  "item_c = \<lparr>item_username = ''cyd'', item_mint = mint_c, item_cost_basis_usd = Fin 100,
              item_current_price_usd = Fin 50, item_pnl = Fin 0\<rparr>"

definition witem_a :: wallet_item where
  "witem_a = \<lparr>witem_username = ''ann'', witem_wallet_address = mint_b,
               witem_net_worth_usd = Fin 30, witem_pnl_usd = Fin (- 70)\<rparr>"

definition witem_b :: wallet_item where
  "witem_b = \<lparr>witem_username = ''bob'', witem_wallet_address = mint_c,
               witem_net_worth_usd = Fin 30, witem_pnl_usd = Fin (- 20)\<rparr>"

definition market_150 :: env where
  "market_150 =
     \<lparr>get_sol_price = Fin 150,
      get_latest_close_price_in_sol = (\<lambda>mint. round64 (1 / 10000)),
      get_wallet_balances =
        (\<lambda>address. [[''balance'' \<mapsto> Fin 1000, ''value'' \<mapsto> round64 (1 / 20)],
                    [''balance'' \<mapsto> Fin 2, ''value'' \<mapsto> Fin 10]]),
      utcnow = 3000, store_down = False\<rparr>"

definition pick_150 :: pick where
  "pick_150 =
     \<lparr>chat_id = 1, user_id = 7, username = ''Anonymous'', mint_address = example_mint,
      cost_basis_usd = Fin 75, num_tokens = Fin 5000, created_at = 3000\<rparr>"

definition db_150 :: db where
  "db_150 = \<lparr>picks_collection = [pick_150], wallets_collection = []\<rparr>"

definition item_150 :: token_item where
  "item_150 =
     \<lparr>item_username = ''Anonymous'', item_mint = example_mint,
      item_cost_basis_usd = Fin 75,
      item_current_price_usd = Fin (8646911284551353 / 576460752303423488),
      item_pnl = Fin 0\<rparr>"

definition wallet_150 :: wallet where
  "wallet_150 =
     \<lparr>wallet_chat_id = 1, wallet_user_id = 7, wallet_username = ''Anonymous'',
      wallet_address = example_mint, start_usd_value = Fin 75, wallet_created_at = 3000\<rparr>"

definition dbw_150 :: db where
  "dbw_150 = \<lparr>picks_collection = [], wallets_collection = [wallet_150]\<rparr>"

definition witem_150 :: wallet_item where
  "witem_150 =
     \<lparr>witem_username = ''Anonymous'', witem_wallet_address = example_mint,
      witem_net_worth_usd = Fin 70, witem_pnl_usd = Fin (- 5)\<rparr>"

definition market_negative :: env where
  "market_negative =
     \<lparr>get_sol_price = Fin 200, get_latest_close_price_in_sol = (\<lambda>mint. Fin (- 1)),
      get_wallet_balances = (\<lambda>address. []), utcnow = 4000, store_down = False\<rparr>"

definition item_negative :: token_item where
  "item_negative =
     \<lparr>item_username = ''Anonymous'', item_mint = example_mint,
      item_cost_basis_usd = Fin 100, item_current_price_usd = Fin (- 200),
      item_pnl = Fin (- 500)\<rparr>"

definition market_zero_close :: env where
  "market_zero_close =
     \<lparr>get_sol_price = Fin 200, get_latest_close_price_in_sol = (\<lambda>mint. Fin 0),
      get_wallet_balances = (\<lambda>address. []), utcnow = 4000, store_down = False\<rparr>"

definition market_one_failed :: env where
  \<comment> \<open>the price read fails for \<open>mint_b\<close> only\<close>
  "market_one_failed =
     \<lparr>get_sol_price = Fin 200,
      get_latest_close_price_in_sol = (\<lambda>mint. if mint = mint_b then Fin 0 else Fin (1 / 4)),
      get_wallet_balances = (\<lambda>address. []), utcnow = 4000, store_down = False\<rparr>"

definition item_b_failed :: token_item where
  "item_b_failed =
     \<lparr>item_username = ''bob'', item_mint = mint_b, item_cost_basis_usd = Fin 100,
      item_current_price_usd = Fin 0, item_pnl = Fin (- 100)\<rparr>"

definition market_tiny :: env where
  \<comment> \<open>the trade price is the least positive float, \<^verbatim>\<open>5e-324\<close>\<close>
  "market_tiny =
     \<lparr>get_sol_price = Fin 200,
      get_latest_close_price_in_sol = (\<lambda>mint. Fin (1 / 2 ^ 1074)),
      get_wallet_balances = (\<lambda>address. []), utcnow = 5000, store_down = False\<rparr>"

definition pick_inf :: pick where
  "pick_inf =
     \<lparr>chat_id = 1, user_id = 7, username = ''Anonymous'', mint_address = example_mint,
      cost_basis_usd = Fin 100, num_tokens = PInf, created_at = 5000\<rparr>"

definition db_inf :: db where
  "db_inf = \<lparr>picks_collection = [pick_inf], wallets_collection = []\<rparr>"

definition item_nan :: token_item where
  "item_nan =
     \<lparr>item_username = ''Anonymous'', item_mint = example_mint,
      item_cost_basis_usd = Fin 100, item_current_price_usd = Fin 0, item_pnl = NaN\<rparr>"

definition wallet_1 :: wallet where
  "wallet_1 =
     \<lparr>wallet_chat_id = 1, wallet_user_id = 7, wallet_username = ''ann'',
      wallet_address = mint_b, start_usd_value = Fin 100, wallet_created_at = 6001\<rparr>"

definition wallet_2 :: wallet where
  "wallet_2 =
     \<lparr>wallet_chat_id = 1, wallet_user_id = 8, wallet_username = ''bob'',
      wallet_address = example_mint, start_usd_value = Fin 100, wallet_created_at = 6002\<rparr>"

definition wallet_3 :: wallet where
  "wallet_3 =
     \<lparr>wallet_chat_id = 1, wallet_user_id = 9, wallet_username = ''cyd'',
      wallet_address = mint_c, start_usd_value = Fin 100, wallet_created_at = 6003\<rparr>"

definition db_nan :: db where
  "db_nan = \<lparr>picks_collection = [], wallets_collection = [wallet_1, wallet_2, wallet_3]\<rparr>"

definition market_nan :: env where
  \<comment> \<open>the second wallet holds a huge long and an equal short position\<close>
  "market_nan =
     \<lparr>get_sol_price = Fin 200, get_latest_close_price_in_sol = (\<lambda>mint. Fin (1 / 4)),
      get_wallet_balances =
        (\<lambda>address.
           if address = mint_b then [[''balance'' \<mapsto> Fin 100, ''value'' \<mapsto> Fin 1]]
           else if address = mint_c then [[''balance'' \<mapsto> Fin 200, ''value'' \<mapsto> Fin 1]]
           else [[''balance'' \<mapsto> Fin (2 ^ 1023), ''value'' \<mapsto> Fin 4],
                 [''balance'' \<mapsto> Fin (- (2 ^ 1023)), ''value'' \<mapsto> Fin 4]]),
      utcnow = 6000, store_down = False\<rparr>"

definition witem_1 :: wallet_item where
  "witem_1 =
     \<lparr>witem_username = ''ann'', witem_wallet_address = mint_b,
      witem_net_worth_usd = Fin 100, witem_pnl_usd = Fin 0\<rparr>"

definition witem_2 :: wallet_item where
  "witem_2 =
     \<lparr>witem_username = ''bob'', witem_wallet_address = example_mint,
      witem_net_worth_usd = NaN, witem_pnl_usd = NaN\<rparr>"

definition witem_3 :: wallet_item where
  "witem_3 =
     \<lparr>witem_username = ''cyd'', witem_wallet_address = mint_c,
      witem_net_worth_usd = Fin 200, witem_pnl_usd = Fin 100\<rparr>"

section \<open>Properties of the float model\<close>

lemmas float_eval =
  round64_def ilog2_def compute_bitlen round_half_even_def Let_def pow2_def

lemma pow2_powi: "pow2 e = 2 powi e"
  by (simp add: pow2_def power_int_def power_inverse [symmetric] inverse_eq_divide power_one_over)

lemma pow2_pos: "0 < pow2 e"
  by (simp add: pow2_powi)

lemma pow2_add: "pow2 (a + b) = pow2 a * pow2 b"
  by (simp add: pow2_powi power_int_add)

lemma pow2_mono: "a \<le> b \<Longrightarrow> pow2 a \<le> pow2 b"
  by (simp add: pow2_powi power_int_increasing)

lemma pow2_strict_mono: "a < b \<Longrightarrow> pow2 a < pow2 b"
  by (simp add: pow2_powi power_int_strict_increasing)

lemma pow2_nat: "0 \<le> e \<Longrightarrow> pow2 e = 2 ^ nat e"
  by (simp add: pow2_def)

lemma pow2_neg: "0 \<le> k \<Longrightarrow> pow2 (- k) = 1 / 2 ^ nat k"
  by (cases "k = 0") (simp_all add: pow2_def)

lemma ilog2_bounds:
  assumes "0 < a"
  shows "pow2 (ilog2 a) \<le> a \<and> a < pow2 (ilog2 a + 1)"
proof (cases "1 \<le> a")
  case True
  define n where "n = \<lfloor>a\<rfloor>"
  have n1: "1 \<le> n" using True by (simp add: n_def)
  then have n0: "0 < n" by simp
  from bitlen_bounds [OF n0]
  have lo: "2 ^ nat (bitlen n - 1) \<le> n" and hi: "n < 2 ^ nat (bitlen n)" by simp_all
  have b1: "1 \<le> bitlen n"
    using n0 bitlen_eq_zero_iff [of n] bitlen_nonneg [of n] by linarith
  have e: "ilog2 a = bitlen n - 1" using True by (simp add: ilog2_def n_def)
  have "pow2 (bitlen n - 1) = 2 ^ nat (bitlen n - 1)"
    using b1 by (simp add: pow2_nat)
  also have "\<dots> = of_int (2 ^ nat (bitlen n - 1))" by simp
  also have "\<dots> \<le> of_int n" using lo by (simp only: of_int_le_iff)
  also have "\<dots> \<le> a" by (simp add: n_def)
  finally have l: "pow2 (ilog2 a) \<le> a" by (simp add: e)
  have "a < of_int n + 1" by (simp add: n_def)
  also have "\<dots> = of_int (n + 1)" by simp
  also have "\<dots> \<le> of_int (2 ^ nat (bitlen n))"
    using hi by (simp only: of_int_le_iff; simp)
  also have "\<dots> = 2 ^ nat (bitlen n)" by simp
  also have "\<dots> = pow2 (bitlen n)" using b1 by (simp add: pow2_nat)
  finally have "a < pow2 (ilog2 a + 1)" by (simp add: e)
  with l show ?thesis ..
next
  case False
  then have a1: "a < 1" by simp
  define m where "m = \<lceil>1 / a\<rceil> - 1"
  have "1 < 1 / a" using assms a1 by simp
  then have "1 < \<lceil>1 / a\<rceil>" by (simp add: less_ceiling_iff)
  then have m0: "0 < m" by (simp add: m_def)
  from bitlen_bounds [OF m0]
  have lo: "2 ^ nat (bitlen m - 1) \<le> m" and hi: "m < 2 ^ nat (bitlen m)" by simp_all
  have b1: "1 \<le> bitlen m"
    using m0 bitlen_eq_zero_iff [of m] bitlen_nonneg [of m] by linarith
  have e: "ilog2 a = - bitlen m" using False by (simp add: ilog2_def m_def)
  have "1 / a \<le> of_int (m + 1)" by (simp add: m_def)
  also have "\<dots> \<le> of_int (2 ^ nat (bitlen m))"
    using hi by (simp only: of_int_le_iff; simp)
  also have "\<dots> = 2 ^ nat (bitlen m)" by simp
  finally have "1 / a \<le> 2 ^ nat (bitlen m)" .
  then have "1 / 2 ^ nat (bitlen m) \<le> a"
    using assms by (simp add: field_simps)
  then have l: "pow2 (ilog2 a) \<le> a"
    using b1 by (simp add: e pow2_neg)
  have "(2::real) ^ nat (bitlen m - 1) = of_int (2 ^ nat (bitlen m - 1))" by simp
  also have "\<dots> \<le> of_int m" using lo by (simp only: of_int_le_iff)
  also have "\<dots> < 1 / a" unfolding m_def by linarith
  finally have "2 ^ nat (bitlen m - 1) < 1 / a" .
  then have "a < 1 / 2 ^ nat (bitlen m - 1)"
    using assms by (simp add: field_simps)
  moreover have "pow2 (ilog2 a + 1) = 1 / 2 ^ nat (bitlen m - 1)"
    using b1 pow2_neg [of "bitlen m - 1"] by (simp add: e)
  ultimately have "a < pow2 (ilog2 a + 1)" by simp
  with l show ?thesis ..
qed

lemma ilog2_unique:
  assumes "pow2 e \<le> a" and "a < pow2 (e + 1)"
  shows "ilog2 a = e"
proof -
  have a0: "0 < a" using pow2_pos [of e] assms(1) by linarith
  note b = ilog2_bounds [OF a0]
  have "\<not> ilog2 a < e"
  proof
    assume "ilog2 a < e"
    then have "pow2 (ilog2 a + 1) \<le> pow2 e" by (intro pow2_mono) simp
    with b assms(1) show False by linarith
  qed
  moreover have "\<not> e < ilog2 a"
  proof
    assume "e < ilog2 a"
    then have "pow2 (e + 1) \<le> pow2 (ilog2 a)" by (intro pow2_mono) simp
    with b assms(2) show False by linarith
  qed
  ultimately show ?thesis by simp
qed

lemma round_half_even_floor: "\<lfloor>x\<rfloor> \<le> round_half_even x \<and> round_half_even x \<le> \<lfloor>x\<rfloor> + 1"
  by (simp add: round_half_even_def Let_def)

lemma round_half_even_of_int: "round_half_even (of_int n) = n"
  by (simp add: round_half_even_def)

lemma round_half_even_near: "\<bar>of_int (round_half_even x) - x\<bar> \<le> 1 / 2"
proof -
  define r where "r = x - of_int \<lfloor>x\<rfloor>"
  define k where "k = round_half_even x - \<lfloor>x\<rfloor>"
  have r: "0 \<le> r" "r < 1" unfolding r_def by linarith+
  have d: "of_int (round_half_even x) - x = of_int k - r"
    by (simp add: r_def k_def)
  consider "r < 1 / 2" | "1 / 2 < r" | "r = 1 / 2" by linarith
  then show ?thesis
  proof cases
    case 1
    then have "k = 0"
      by (simp add: round_half_even_def Let_def r_def k_def)
    then show ?thesis unfolding d using 1 r by simp
  next
    case 2
    then have "k = 1"
      by (simp add: round_half_even_def Let_def r_def k_def)
    then show ?thesis unfolding d using 2 r by simp
  next
    case 3
    then have "k = 0 \<or> k = 1"
      by (simp add: round_half_even_def Let_def r_def k_def)
    then show ?thesis unfolding d using 3 by auto
  qed
qed

lemma round_half_even_ge:
  assumes "of_int lo \<le> x"
  shows "lo \<le> round_half_even x"
proof -
  from assms have "lo \<le> \<lfloor>x\<rfloor>" by (simp add: le_floor_iff)
  with round_half_even_floor [of x] show ?thesis by linarith
qed

lemma round_half_even_le:
  assumes "x \<le> of_int hi"
  shows "round_half_even x \<le> hi"
proof (cases "x = of_int hi")
  case True
  then show ?thesis by (simp add: round_half_even_of_int)
next
  case False
  with assms have "x < of_int hi" by simp
  then have "\<lfloor>x\<rfloor> < hi" by (simp add: floor_less_iff)
  with round_half_even_floor [of x] show ?thesis by linarith
qed

lemma pow2_52: "pow2 52 = 2 ^ 52"
  by (simp add: pow2_def)

lemma pow2_53: "pow2 53 = 2 ^ 53"
  by (simp add: pow2_def)

lemma pow2_split: "pow2 e = pow2 (e - 52) * 2 ^ 52"
proof -
  have "pow2 e = pow2 ((e - 52) + 52)" by simp
  also have "\<dots> = pow2 (e - 52) * pow2 52" by (rule pow2_add)
  finally show ?thesis by (simp only: pow2_52)
qed

lemma pow2_split1: "pow2 (e + 1) = pow2 (e - 52) * 2 ^ 53"
proof -
  have "e + 1 = (e - 52) + 53" by simp
  then have "pow2 (e + 1) = pow2 ((e - 52) + 53)" by (rule arg_cong)
  also have "\<dots> = pow2 (e - 52) * pow2 53" by (rule pow2_add)
  finally show ?thesis by (simp only: pow2_53)
qed

lemma ilog2_ge:
  assumes "pow2 e \<le> a"
  shows "e \<le> ilog2 a"
proof (rule ccontr)
  assume "\<not> e \<le> ilog2 a"
  then have "pow2 (ilog2 a + 1) \<le> pow2 e" by (intro pow2_mono) simp
  moreover have "0 < a" using pow2_pos [of e] assms by linarith
  ultimately show False using ilog2_bounds [of a] assms by linarith
qed

lemma ilog2_less:
  assumes "0 < a" and "a < pow2 e"
  shows "ilog2 a < e"
proof (rule ccontr)
  assume "\<not> ilog2 a < e"
  then have "pow2 e \<le> pow2 (ilog2 a)" by (intro pow2_mono) simp
  with ilog2_bounds [OF assms(1)] assms(2) show False by linarith
qed

lemma round64_pos:
  assumes "0 < x"
  shows "round64 x =
     (let q = pow2 (max (ilog2 x) (- 1022) - 52);
          y = of_int (round_half_even (x / q)) * q
      in if pow2 1024 \<le> y then PInf else Fin y)"
  using assms by (simp add: round64_def Let_def)

lemma round64_uminus: "round64 (- x) = fneg (round64 x)"
  by (simp add: round64_def Let_def sgn_minus)

lemma round64_0: "round64 0 = Fin 0"
  by (simp add: round64_def)

lemma scaled_bounds:
  assumes "0 < x"
  shows "2 ^ 52 \<le> x / pow2 (ilog2 x - 52)" and "x / pow2 (ilog2 x - 52) < 2 ^ 53"
proof -
  let ?q = "pow2 (ilog2 x - 52)"
  have q: "0 < ?q" by (rule pow2_pos)
  from ilog2_bounds [OF assms]
  have "?q * 2 ^ 52 \<le> x" and "x < ?q * 2 ^ 53"
    using pow2_split [of "ilog2 x"] pow2_split1 [of "ilog2 x"] by simp_all
  then show "2 ^ 52 \<le> x / ?q" and "x / ?q < 2 ^ 53"
    using q by (simp_all add: field_simps)
qed

lemma mantissa_bounds:
  assumes "0 < x"
  shows "2 ^ 52 \<le> round_half_even (x / pow2 (ilog2 x - 52))"
    and "round_half_even (x / pow2 (ilog2 x - 52)) \<le> 2 ^ 53"
proof -
  from scaled_bounds [OF assms]
  have "of_int (2 ^ 52) \<le> x / pow2 (ilog2 x - 52)" "x / pow2 (ilog2 x - 52) \<le> of_int (2 ^ 53)"
    by simp_all
  then show "2 ^ 52 \<le> round_half_even (x / pow2 (ilog2 x - 52))"
    and "round_half_even (x / pow2 (ilog2 x - 52)) \<le> 2 ^ 53"
    by (simp_all only: round_half_even_ge round_half_even_le)
qed

lemma pow2_1074: "pow2 (- 1022) = pow2 (- 1074) * 2 ^ 52"
  using pow2_split [of "- 1022"] by simp

lemma subnormal_mantissa_bounds:
  assumes "0 < x" and "x < pow2 (- 1022)"
  shows "0 \<le> round_half_even (x / pow2 (- 1074))"
    and "round_half_even (x / pow2 (- 1074)) \<le> 2 ^ 52"
proof -
  let ?q = "pow2 (- 1074)"
  have q: "0 < ?q" by (rule pow2_pos)
  have "of_int 0 \<le> x / ?q" using assms(1) q by simp
  then show "0 \<le> round_half_even (x / ?q)" by (rule round_half_even_ge)
  have "x / ?q \<le> 2 ^ 52" using assms(2) q by (simp add: pow2_1074 field_simps)
  then have "x / ?q \<le> of_int (2 ^ 52)" by simp
  then show "round_half_even (x / ?q) \<le> 2 ^ 52" by (rule round_half_even_le)
qed

lemma round64_fixes_normal:
  assumes "2 ^ 52 \<le> m" and "m \<le> 2 ^ 53" and "- 1074 \<le> e"
    and "of_int m * pow2 e < pow2 1024"
  shows "round64 (of_int m * pow2 e) = Fin (of_int m * pow2 e)"
proof -
  let ?y = "of_int m * pow2 e"
  have m0: "0 < (of_int m :: real)" using assms(1) by (simp add: less_le_trans [of 0 "2 ^ 52"])
  have y0: "0 < ?y" using m0 pow2_pos [of e] by simp
  have lo: "(2 :: real) ^ 52 \<le> of_int m"
    using assms(1) by (metis of_int_le_iff of_int_numeral of_int_power)
  show ?thesis
  proof (cases "m = 2 ^ 53")
    case True
    have y: "?y = pow2 (e + 1) * of_int (2 ^ 52)"
    proof -
      have "?y = pow2 e * pow2 53" using True by (simp add: pow2_53)
      also have "\<dots> = pow2 (e + 53)" by (simp only: pow2_add)
      also have "e + 53 = (e + 1) + 52" by simp
      also have "pow2 ((e + 1) + 52) = pow2 (e + 1) * pow2 52" by (rule pow2_add)
      finally show ?thesis by (simp only: pow2_52) simp
    qed
    have y': "?y = pow2 (e + 53)"
    proof -
      have "?y = pow2 e * pow2 53" using True by (simp add: pow2_53)
      then show ?thesis by (simp only: pow2_add)
    qed
    have "pow2 (e + 53) \<le> ?y" by (simp only: y')
    moreover have "?y < pow2 (e + 53 + 1)"
      unfolding y' by (rule pow2_strict_mono) simp
    ultimately have "ilog2 ?y = e + 53" by (rule ilog2_unique)
    then have i: "max (ilog2 ?y) (- 1022) - 52 = e + 1" using assms(3) by simp
    have d: "?y / pow2 (e + 1) = of_int (2 ^ 52)"
      using pow2_pos [of "e + 1"] by (subst y) simp
    have "of_int (round_half_even (?y / pow2 (e + 1))) * pow2 (e + 1) = ?y"
      unfolding d round_half_even_of_int by (rule trans [OF mult.commute y [symmetric]])
    then show ?thesis
      using assms(4) by (simp only: round64_pos [OF y0] i Let_def) simp
  next
    case False
    with assms(2) have "m < 2 ^ 53" by simp
    then have hi': "of_int m < (2 :: real) ^ 53"
      by (metis of_int_less_iff of_int_numeral of_int_power)
    have p: "pow2 (e + 52) = pow2 e * 2 ^ 52" "pow2 (e + 52 + 1) = pow2 e * 2 ^ 53"
    proof -
      show "pow2 (e + 52) = pow2 e * 2 ^ 52" by (simp only: pow2_add pow2_52)
      have "e + 52 + 1 = e + 53" by simp
      then show "pow2 (e + 52 + 1) = pow2 e * 2 ^ 53" by (simp only: pow2_add pow2_53)
    qed
    have "pow2 (e + 52) \<le> ?y"
      unfolding p using lo pow2_pos [of e] by (simp add: mult.commute)
    moreover have "?y < pow2 (e + 52 + 1)"
      unfolding p using hi' pow2_pos [of e] by (simp add: mult.commute)
    ultimately have "ilog2 ?y = e + 52" by (rule ilog2_unique)
    then have i: "max (ilog2 ?y) (- 1022) - 52 = e" using assms(3) by simp
    have d: "?y / pow2 e = of_int m"
      using pow2_pos [of e] by simp
    have "of_int (round_half_even (?y / pow2 e)) * pow2 e = ?y"
      unfolding d round_half_even_of_int ..
    then show ?thesis
      using assms(4) by (simp only: round64_pos [OF y0] i Let_def) simp
  qed
qed

lemma round64_fixes_subnormal:
  assumes "0 < m" and "m \<le> 2 ^ 52"
  shows "round64 (of_int m * pow2 (- 1074)) = Fin (of_int m * pow2 (- 1074))"
proof -
  let ?q = "pow2 (- 1074)"
  let ?y = "of_int m * ?q"
  have q: "0 < ?q" by (rule pow2_pos)
  have y0: "0 < ?y" using assms(1) q by simp
  have "of_int m \<le> (2 :: real) ^ 52"
    using assms(2) by (metis of_int_le_iff of_int_numeral of_int_power)
  then have le: "?y \<le> pow2 (- 1022)"
    using q by (simp add: pow2_1074 mult.commute)
  also have "pow2 (- 1022) < pow2 (- 1021)" by (rule pow2_strict_mono) simp
  finally have "ilog2 ?y < - 1021" using y0 by (intro ilog2_less)
  then have i: "max (ilog2 ?y) (- 1022) - 52 = - 1074" by simp
  have d: "?y / ?q = of_int m" using q by simp
  have r: "of_int (round_half_even (?y / ?q)) * ?q = ?y"
    unfolding d round_half_even_of_int ..
  have "pow2 (- 1022) < pow2 1024" by (rule pow2_strict_mono) simp
  with le have "\<not> pow2 1024 \<le> ?y" by linarith
  then show ?thesis
    by (simp only: round64_pos [OF y0] i Let_def r) simp
qed

lemma is_pyfloat_round64_pos:
  assumes "0 < x"
  shows "is_pyfloat (round64 x)"
proof -
  define e where "e = max (ilog2 x) (- 1022)"
  define q where "q = pow2 (e - 52)"
  define m where "m = round_half_even (x / q)"
  have r: "round64 x = (if pow2 1024 \<le> of_int m * q then PInf else Fin (of_int m * q))"
    by (simp add: round64_pos [OF assms] Let_def e_def q_def m_def)
  show ?thesis
  proof (cases "pow2 1024 \<le> of_int m * q")
    case True
    then show ?thesis by (simp add: r)
  next
    case False
    then have lt: "of_int m * q < pow2 1024" by simp
    have "round64 (of_int m * q) = Fin (of_int m * q)"
    proof (cases "- 1022 \<le> ilog2 x")
      case True
      then have e: "e = ilog2 x" by (simp add: e_def)
      have "2 ^ 52 \<le> m" "m \<le> 2 ^ 53"
        using mantissa_bounds [OF assms] by (simp_all add: m_def q_def e)
      moreover have "- 1074 \<le> e - 52" using True e by simp
      ultimately show ?thesis
        using lt unfolding q_def by (intro round64_fixes_normal)
    next
      case False
      then have e: "e = - 1022" by (simp add: e_def)
      have "x < pow2 (ilog2 x + 1)" using ilog2_bounds [OF assms] by simp
      also have "\<dots> \<le> pow2 (- 1022)" using False by (intro pow2_mono) simp
      finally have x: "x < pow2 (- 1022)" .
      have q': "q = pow2 (- 1074)" by (simp add: q_def e)
      have "0 \<le> m" "m \<le> 2 ^ 52"
        using subnormal_mantissa_bounds [OF assms x] by (simp_all add: m_def q')
      then show ?thesis
        unfolding q'
        by (cases "m = 0") (simp_all add: round64_0 round64_fixes_subnormal)
    qed
    then show ?thesis using False by (simp add: r is_float64_def)
  qed
qed

lemma is_pyfloat_fneg: "is_pyfloat v \<Longrightarrow> is_pyfloat (fneg v)"
  by (cases v) (simp_all add: is_float64_def round64_uminus)

lemma is_pyfloat_round64: "is_pyfloat (round64 x)"
proof -
  consider "x = 0" | "0 < x" | "0 < - x" by linarith
  then show ?thesis
  proof cases
    case 1
    then show ?thesis by (simp add: round64_0 is_float64_def)
  next
    case 2
    then show ?thesis by (rule is_pyfloat_round64_pos)
  next
    case 3
    from is_pyfloat_fneg [OF is_pyfloat_round64_pos [OF 3]]
    show ?thesis by (simp add: round64_uminus) (cases "round64 x"; simp)
  qed
qed

lemma is_pyfloat_ops:
  "is_pyfloat (fadd u v)" "is_pyfloat (fsub u v)" "is_pyfloat (fmul u v)" "is_pyfloat (fdiv u v)"
proof -
  show a: "is_pyfloat (fadd u v)" for u v
    by (cases u; cases v) (simp_all add: is_pyfloat_round64)
  show "is_pyfloat (fsub u v)"
    unfolding fsub_def by (rule a)
  show "is_pyfloat (fmul u v)"
    by (cases u; cases v) (simp_all add: is_pyfloat_round64)
  show "is_pyfloat (fdiv u v)"
    by (cases u; cases v) (simp_all add: is_pyfloat_round64 is_float64_def round64_0)
qed

lemma round64_overflow:
  assumes "pow2 1024 \<le> x"
  shows "round64 x = PInf"
proof -
  have x0: "0 < x" using pow2_pos [of 1024] assms by linarith
  have e: "1024 \<le> ilog2 x" using assms by (rule ilog2_ge)
  then have m: "max (ilog2 x) (- 1022) = ilog2 x" by simp
  let ?q = "pow2 (ilog2 x - 52)"
  have "pow2 1024 \<le> pow2 (ilog2 x)" using e by (rule pow2_mono)
  also have "\<dots> = ?q * 2 ^ 52" by (rule pow2_split)
  also have "\<dots> \<le> of_int (round_half_even (x / ?q)) * ?q"
  proof -
    have "(2 :: real) ^ 52 \<le> of_int (round_half_even (x / ?q))"
      using mantissa_bounds(1) [OF x0] by (metis of_int_le_iff of_int_numeral of_int_power)
    then show ?thesis using pow2_pos [of "ilog2 x - 52"] by (simp add: mult.commute)
  qed
  finally show ?thesis
    by (simp add: round64_pos [OF x0] m Let_def)
qed

lemma float_form:
  assumes "is_float64 x" and "pow2 (- 1022) \<le> x"
  obtains m where "x = of_int m * pow2 (ilog2 x - 52)" and "2 ^ 52 \<le> m" and "m \<le> 2 ^ 53"
    and "x < pow2 1024"
proof -
  have x0: "0 < x" using pow2_pos [of "- 1022"] assms(2) by linarith
  have e: "- 1022 \<le> ilog2 x" using assms(2) by (rule ilog2_ge)
  then have m: "max (ilog2 x) (- 1022) = ilog2 x" by simp
  let ?q = "pow2 (ilog2 x - 52)"
  let ?y = "of_int (round_half_even (x / ?q)) * ?q"
  from assms(1) have "(if pow2 1024 \<le> ?y then PInf else Fin ?y) = Fin x"
    by (simp add: is_float64_def round64_pos [OF x0] m Let_def)
  then have "x = ?y \<and> x < pow2 1024"
    by (simp split: if_splits)
  then show thesis
    using mantissa_bounds [OF x0] that by blast
qed

lemma round64_half_pos:
  assumes "is_float64 x" and "pow2 (- 1021) \<le> x"
  shows "round64 (x / 2) = Fin (x / 2)"
proof -
  have "pow2 (- 1022) \<le> pow2 (- 1021)" by (rule pow2_mono) simp
  with assms(2) have "pow2 (- 1022) \<le> x" by linarith
  with assms(1) obtain m where x: "x = of_int m * pow2 (ilog2 x - 52)"
    and m: "2 ^ 52 \<le> m" "m \<le> 2 ^ 53" and lt: "x < pow2 1024"
    by (rule float_form)
  define e where "e = ilog2 x - 52"
  have x0: "0 < x" using pow2_pos [of "- 1021"] assms(2) by linarith
  have "- 1021 \<le> ilog2 x" using assms(2) by (rule ilog2_ge)
  then have e: "- 1074 \<le> e - 1" by (simp add: e_def)
  have p: "pow2 e = pow2 (e - 1) * 2"
  proof -
    have "pow2 e = pow2 ((e - 1) + 1)" by simp
    also have "\<dots> = pow2 (e - 1) * pow2 1" by (rule pow2_add)
    also have "pow2 1 = 2" by (simp add: pow2_def)
    finally show ?thesis .
  qed
  have h: "x / 2 = of_int m * pow2 (e - 1)"
    using x by (simp add: e_def [symmetric] p)
  have "of_int m * pow2 (e - 1) < pow2 1024" using lt x0 by (simp add: h [symmetric])
  with m e have "round64 (of_int m * pow2 (e - 1)) = Fin (of_int m * pow2 (e - 1))"
    by (intro round64_fixes_normal)
  then show ?thesis by (simp only: h)
qed

lemma round64_half:
  assumes "is_float64 x" and "pow2 (- 1021) \<le> \<bar>x\<bar>"
  shows "round64 (x / 2) = Fin (x / 2)"
proof (cases "0 \<le> x")
  case True
  with assms show ?thesis by (simp add: round64_half_pos)
next
  case False
  then have a: "\<bar>x\<bar> = - x" by simp
  from assms(1) have "is_float64 (- x)"
    by (simp add: is_float64_def round64_uminus)
  moreover from assms(2) have "pow2 (- 1021) \<le> - x" by (simp only: a)
  ultimately have "round64 (- x / 2) = Fin (- x / 2)"
    by (rule round64_half_pos)
  then have "fneg (round64 (x / 2)) = Fin (- (x / 2))"
    using round64_uminus [of "x / 2"] by simp
  then show ?thesis by (cases "round64 (x / 2)") simp_all
qed

lemma round64_error:
  assumes "round64 x = Fin y" and "x \<noteq> 0"
  shows "\<bar>y - x\<bar> \<le> pow2 (max (ilog2 \<bar>x\<bar>) (- 1022) - 52) / 2"
proof -
  define q where "q = pow2 (max (ilog2 \<bar>x\<bar>) (- 1022) - 52)"
  have q: "0 < q" unfolding q_def by (rule pow2_pos)
  define m where "m = round_half_even (\<bar>x\<bar> / q)"
  from assms have y: "y = sgn x * (of_int m * q)"
    by (simp add: round64_def Let_def q_def m_def split: if_splits)
  have "\<bar>of_int m - \<bar>x\<bar> / q\<bar> \<le> 1 / 2"
    unfolding m_def by (rule round_half_even_near)
  then have "\<bar>of_int m - \<bar>x\<bar> / q\<bar> * q \<le> 1 / 2 * q"
    using q by (intro mult_right_mono) simp_all
  moreover have "\<bar>of_int m - \<bar>x\<bar> / q\<bar> * q = \<bar>of_int m * q - \<bar>x\<bar>\<bar>"
  proof -
    have "\<bar>of_int m - \<bar>x\<bar> / q\<bar> * q = \<bar>(of_int m - \<bar>x\<bar> / q) * q\<bar>"
      using q by (simp add: abs_mult)
    also have "(of_int m - \<bar>x\<bar> / q) * q = of_int m * q - \<bar>x\<bar>"
      using q by (simp add: field_simps)
    finally show ?thesis .
  qed
  moreover have "\<bar>y - x\<bar> = \<bar>of_int m * q - \<bar>x\<bar>\<bar>"
  proof (cases "0 < x")
    case True
    then show ?thesis by (simp add: y)
  next
    case False
    with assms(2) have "x < 0" by simp
    then have "y - x = - (of_int m * q - \<bar>x\<bar>)" by (simp add: y)
    then show ?thesis by (simp only: abs_minus)
  qed
  ultimately show ?thesis by (simp add: q_def)
qed

section \<open>The address validator\<close>








lemma strip_example_mint: "strip example_mint = example_mint"
  by (simp add: strip_def example_mint_def is_space_def)

lemma valid_example_mint: "is_valid_solana_address example_mint"
  by (simp add: is_valid_solana_address_def re_match_def dollar_def base58_class_def
      in_range_def example_mint_def)




section \<open>The ledger and the error paths\<close>

lemma find_one_pick_None_iff:
  "(find_one_pick d chat mint = None) =
     (\<forall>p \<in> set (picks_collection d). \<not> (chat_id p = chat \<and> mint_address p = mint))"
  by (auto simp: find_one_pick_def find_None_iff)

lemma handle_contract_address_added:
  assumes "handle_contract_address d e chat user uname t = (Reply_PickAdded p, d1, calls)"
  shows "is_valid_solana_address (strip t)"
    and "find_one_pick d chat (strip t) = None"
    and "\<not> fle (get_sol_price e) (Fin 0)"
    and "\<not> fle (get_latest_close_price_in_sol e (strip t)) (Fin 0)"
    and "p = \<lparr>chat_id = chat, user_id = user, username = username_or_anonymous uname,
              mint_address = strip t,
              cost_basis_usd = fmul (Fin (1 / 2)) (get_sol_price e),
              num_tokens = fdiv (Fin (1 / 2)) (get_latest_close_price_in_sol e (strip t)),
              created_at = utcnow e\<rparr>"
    and "d1 = d\<lparr>picks_collection := picks_collection d @ [p]\<rparr>"
    and "calls = [Call_get_sol_price, Call_get_latest_close_price_in_sol (strip t)]"
  using assms
  by (auto simp: handle_contract_address_def insert_one_pick_def Let_def
      split: if_splits option.splits sum.splits)

lemma handle_contract_address_picks:
  "picks_collection (fst (snd (handle_contract_address d e chat user uname t))) =
     picks_collection d \<or>
   (\<exists>p. chat_id p = chat \<and> mint_address p = strip t \<and>
        find_one_pick d chat (strip t) = None \<and>
        picks_collection (fst (snd (handle_contract_address d e chat user uname t))) =
          picks_collection d @ [p])"
  by (auto simp: handle_contract_address_def insert_one_pick_def Let_def
      split: if_splits option.splits sum.splits)

lemma register_wallet_command_picks:
  "picks_collection (fst (snd (register_wallet_command d e chat user uname args))) =
     picks_collection d"
  by (auto simp: register_wallet_command_def insert_one_wallet_def Let_def
      split: if_splits option.splits sum.splits list.splits)

lemma dispatch_picks:
  "picks_collection (fst (snd (dispatch d e u))) = picks_collection d \<or>
   (\<exists>p. find_one_pick d (chat_id p) (mint_address p) = None \<and>
        picks_collection (fst (snd (dispatch d e u))) = picks_collection d @ [p])"
proof (cases "content u")
  case (Text_message t)
  then show ?thesis
    using handle_contract_address_picks
      [of d e "effective_chat u" "effective_user u" "effective_username u" t]
    by (auto simp: dispatch_def)
next
  case (Cmd_register_wallet args)
  then show ?thesis
    by (simp add: dispatch_def register_wallet_command_picks)
qed (simp_all add: dispatch_def split: prod.splits)

lemma dispatch_picks_prefix:
  "prefix (picks_collection d) (picks_collection (fst (snd (dispatch d e u))))"
  using dispatch_picks [of d e u] by auto

lemma run_picks_prefix: "prefix (picks_collection d) (picks_collection (run d evs))"
proof (induction evs arbitrary: d)
  case Nil
  show ?case by simp
next
  case (Cons ev evs)
  obtain e u where ev: "ev = (e, u)" by (cases ev)
  have "prefix (picks_collection d) (picks_collection (fst (snd (dispatch d e u))))"
    by (rule dispatch_picks_prefix)
  also have "prefix \<dots> (picks_collection (run (fst (snd (dispatch d e u))) evs))"
    by (rule Cons.IH)
  finally show ?case by (simp add: ev)
qed

lemma dispatch_unique_picks:
  assumes "unique_picks d"
  shows "unique_picks (fst (snd (dispatch d e u)))"
proof -
  let ?key = "\<lambda>p. (chat_id p, mint_address p)"
  from dispatch_picks [of d e u] show ?thesis
  proof
    assume "picks_collection (fst (snd (dispatch d e u))) = picks_collection d"
    with assms show ?thesis by (simp add: unique_picks_def)
  next
    assume "\<exists>p. find_one_pick d (chat_id p) (mint_address p) = None \<and>
        picks_collection (fst (snd (dispatch d e u))) = picks_collection d @ [p]"
    then obtain p where fresh: "find_one_pick d (chat_id p) (mint_address p) = None"
      and app: "picks_collection (fst (snd (dispatch d e u))) = picks_collection d @ [p]"
      by blast
    from fresh have "?key p \<notin> ?key ` set (picks_collection d)"
      unfolding find_one_pick_None_iff by force
    with assms show ?thesis by (simp add: unique_picks_def app)
  qed
qed

lemma run_unique_picks: "unique_picks d \<Longrightarrow> unique_picks (run d evs)"
  by (induction evs arbitrary: d) (auto simp: dispatch_unique_picks)

lemma handle_contract_address_duplicate:
  assumes "is_valid_solana_address (strip t)"
    and "\<exists>p \<in> set (picks_collection d). chat_id p = chat \<and> mint_address p = strip t"
  shows "handle_contract_address d e chat user uname t = (Reply_AlreadyShilled (strip t), d, [])"
proof -
  from assms(2) have "find_one_pick d chat (strip t) \<noteq> None"
    by (simp add: find_one_pick_None_iff)
  then show ?thesis
    using assms(1) by (auto simp: handle_contract_address_def Let_def)
qed


lemma handle_contract_address_market_200:
  "handle_contract_address empty_db market_200 1 7 None example_mint =
     (Reply_PickAdded pick_200, db_200,
      [Call_get_sol_price, Call_get_latest_close_price_in_sol example_mint])"
  by (simp add: handle_contract_address_def strip_example_mint valid_example_mint
      find_one_pick_def empty_db_def market_200_def insert_one_pick_def
      float_eval username_or_anonymous_def pick_200_def db_200_def)

lemma handle_contract_address_market_down:
  "handle_contract_address empty_db market_down 1 7 None example_mint =
     (Reply_SolPriceError, empty_db, [Call_get_sol_price])"
  by (simp add: handle_contract_address_def strip_example_mint valid_example_mint
      find_one_pick_def empty_db_def market_down_def)

lemma register_wallet_command_market_down:
  "register_wallet_command empty_db market_down 1 7 None [example_mint] =
     (Reply_SolPriceError, empty_db, [Call_get_sol_price])"
  by (simp add: register_wallet_command_def strip_example_mint valid_example_mint
      find_one_wallet_def empty_db_def market_down_def)

text \<open>
  Claim C1: every successful entry (\<^verbatim>\<open>handle_contract_address\<close> replying that the pick was
  added) was made with a reference price \<open>r\<close> and a latest trade price \<open>t\<close> that passed the
  guards \<^verbatim>\<open>r <= 0\<close> and \<^verbatim>\<open>t <= 0\<close>, so a finite \<open>r\<close> or \<open>t\<close> is greater than 0, and the
  stored position has \<^verbatim>\<open>cost_basis_usd = 0.5 * r\<close> and \<^verbatim>\<open>num_tokens = 0.5 / t\<close> in float
  arithmetic; for a normal float \<open>r\<close> the product is exactly half of \<open>r\<close>. The position is
  appended to the collection, and whatever updates are handled afterwards, the collection
  keeps it and every older position unchanged as a prefix.
\<close>

theorem entry_freezes_position:
  assumes "handle_contract_address d e chat user uname t = (Reply_PickAdded p, d1, calls)"
  shows "\<not> fle (get_sol_price e) (Fin 0) \<and>
         \<not> fle (get_latest_close_price_in_sol e (strip t)) (Fin 0) \<and>
         (\<forall>r. get_sol_price e = Fin r \<longrightarrow> 0 < r) \<and>
         (\<forall>c. get_latest_close_price_in_sol e (strip t) = Fin c \<longrightarrow> 0 < c) \<and>
         cost_basis_usd p = fmul (Fin (1 / 2)) (get_sol_price e) \<and>
         (\<forall>r. get_sol_price e = Fin r \<and> is_float64 r \<and> pow2 (- 1021) \<le> r \<longrightarrow>
            cost_basis_usd p = Fin (r / 2)) \<and>
         num_tokens p = fdiv (Fin (1 / 2)) (get_latest_close_price_in_sol e (strip t)) \<and>
         picks_collection d1 = picks_collection d @ [p] \<and>
         (\<forall>evs. prefix (picks_collection d @ [p]) (picks_collection (run d1 evs)))"
proof -
  note a = handle_contract_address_added [OF assms]
  have app: "picks_collection d1 = picks_collection d @ [p]"
    by (simp add: a(6))
  have pre: "\<forall>evs. prefix (picks_collection d @ [p]) (picks_collection (run d1 evs))"
    using run_picks_prefix [of d1] by (simp add: app)
  have c: "cost_basis_usd p = fmul (Fin (1 / 2)) (get_sol_price e)"
    by (subst a(5)) simp
  have h: "\<forall>r. get_sol_price e = Fin r \<and> is_float64 r \<and> pow2 (- 1021) \<le> r \<longrightarrow>
      cost_basis_usd p = Fin (r / 2)"
  proof (intro allI impI)
    fix r
    assume r: "get_sol_price e = Fin r \<and> is_float64 r \<and> pow2 (- 1021) \<le> r"
    then have "pow2 (- 1021) \<le> \<bar>r\<bar>" by linarith
    with r have "round64 (r / 2) = Fin (r / 2)" by (intro round64_half) simp_all
    with r show "cost_basis_usd p = Fin (r / 2)" by (simp add: c)
  qed
  have n: "num_tokens p = fdiv (Fin (1 / 2)) (get_latest_close_price_in_sol e (strip t))"
    by (subst a(5)) simp
  have r0: "\<forall>r. get_sol_price e = Fin r \<longrightarrow> 0 < r"
    using a(3) by auto
  have c0: "\<forall>c. get_latest_close_price_in_sol e (strip t) = Fin c \<longrightarrow> 0 < c"
    using a(4) by auto
  show ?thesis
    by (intro conjI) (fact a(3) a(4) r0 c0 c h n app pre)+
qed

theorem entry_freezes_position_witness:
  "fst (handle_contract_address empty_db market_200 1 7 None example_mint) =
     Reply_PickAdded pick_200 \<and>
   get_sol_price market_200 = Fin 200 \<and>
   get_latest_close_price_in_sol market_200 (strip example_mint) = Fin (1 / 4) \<and>
   cost_basis_usd pick_200 = Fin 100 \<and> num_tokens pick_200 = Fin 2 \<and>
   cost_basis_usd pick_200 = fmul (Fin (1 / 2)) (get_sol_price market_200) \<and>
   is_float64 200 \<and> pow2 (- 1021) \<le> 200 \<and>
   cost_basis_usd pick_200 = Fin (200 / 2) \<and>
   num_tokens pick_200 =
     fdiv (Fin (1 / 2)) (get_latest_close_price_in_sol market_200 (strip example_mint)) \<and>
   prefix (picks_collection empty_db @ [pick_200]) (picks_collection (run db_200 []))"
proof -
  note t = entry_freezes_position [OF handle_contract_address_market_200]
  from t have c: "cost_basis_usd pick_200 = fmul (Fin (1 / 2)) (get_sol_price market_200)"
    by blast
  from t have n: "num_tokens pick_200 =
      fdiv (Fin (1 / 2)) (get_latest_close_price_in_sol market_200 (strip example_mint))"
    by blast
  from t have "\<forall>evs. prefix (picks_collection empty_db @ [pick_200])
      (picks_collection (run db_200 evs))"
    by blast
  then have p: "prefix (picks_collection empty_db @ [pick_200])
      (picks_collection (run db_200 []))"
    by (rule spec)
  have r: "fst (handle_contract_address empty_db market_200 1 7 None example_mint) =
      Reply_PickAdded pick_200"
    by (simp add: handle_contract_address_market_200)
  have v1: "get_sol_price market_200 = Fin 200"
    by (simp add: market_200_def)
  have v2: "get_latest_close_price_in_sol market_200 (strip example_mint) = Fin (1 / 4)"
    by (simp add: market_200_def)
  have v3: "cost_basis_usd pick_200 = Fin 100"
    by (simp add: pick_200_def)
  have v4: "num_tokens pick_200 = Fin 2"
    by (simp add: pick_200_def)
  have f: "is_float64 200"
    by (simp add: is_float64_def float_eval)
  have g: "pow2 (- 1021) \<le> 200"
    by (simp add: pow2_def)
  from t have "\<forall>r. get_sol_price market_200 = Fin r \<and> is_float64 r \<and> pow2 (- 1021) \<le> r \<longrightarrow>
      cost_basis_usd pick_200 = Fin (r / 2)"
    by blast
  with v1 f g have h: "cost_basis_usd pick_200 = Fin (200 / 2)"
    by blast
  show ?thesis
    by (intro conjI) (fact r v1 v2 v3 v4 c f g h n p)+
qed

text \<open>
  Claim C4: when the reference price is 0 or less, neither \<^verbatim>\<open>handle_contract_address\<close> nor
  \<^verbatim>\<open>register_wallet_command\<close> changes the ledger, and each call that read the reference
  price answers with \<open>MarketDataUnavailable\<close>; the same holds for \<^verbatim>\<open>handle_contract_address\<close>
  when the latest trade price is 0 or less. The reference price is read exactly by the calls
  whose address is valid and not yet stored for the chat: validation and the duplicate check
  come first in both handlers.
\<close>

theorem market_unavailable_no_writes:
  assumes "handle_contract_address d e chat user uname t = (r1, d1, calls1)"
    and "register_wallet_command d e chat user uname args = (r2, d2, calls2)"
  shows "(fle (get_sol_price e) (Fin 0) \<longrightarrow>
            d1 = d \<and> d2 = d \<and>
            (Call_get_sol_price \<in> set calls1 \<longrightarrow> outcome_of r1 = MarketDataUnavailable) \<and>
            (Call_get_sol_price \<in> set calls2 \<longrightarrow> outcome_of r2 = MarketDataUnavailable)) \<and>
         (fle (get_latest_close_price_in_sol e (strip t)) (Fin 0) \<longrightarrow>
            d1 = d \<and>
            (Call_get_sol_price \<in> set calls1 \<longrightarrow> outcome_of r1 = MarketDataUnavailable)) \<and>
         (Call_get_sol_price \<in> set calls1 \<longleftrightarrow>
            is_valid_solana_address (strip t) \<and> find_one_pick d chat (strip t) = None) \<and>
         (Call_get_sol_price \<in> set calls2 \<longleftrightarrow>
            (\<exists>arg rest. args = arg # rest \<and> is_valid_solana_address (strip arg) \<and>
               find_one_wallet d chat (strip arg) = None))"
proof -
  have h: "(fle (get_sol_price e) (Fin 0) \<or> fle (get_latest_close_price_in_sol e (strip t)) (Fin 0) \<longrightarrow>
            d1 = d \<and>
            (Call_get_sol_price \<in> set calls1 \<longrightarrow> outcome_of r1 = MarketDataUnavailable)) \<and>
         (Call_get_sol_price \<in> set calls1 \<longleftrightarrow>
            is_valid_solana_address (strip t) \<and> find_one_pick d chat (strip t) = None)"
    using assms(1)
    by (auto simp: handle_contract_address_def Let_def
        split: if_splits option.splits sum.splits)
  have r: "(fle (get_sol_price e) (Fin 0) \<longrightarrow>
            d2 = d \<and>
            (Call_get_sol_price \<in> set calls2 \<longrightarrow> outcome_of r2 = MarketDataUnavailable)) \<and>
         (Call_get_sol_price \<in> set calls2 \<longleftrightarrow>
            (\<exists>arg rest. args = arg # rest \<and> is_valid_solana_address (strip arg) \<and>
               find_one_wallet d chat (strip arg) = None))"
    using assms(2)
    by (auto simp: register_wallet_command_def Let_def
        split: if_splits option.splits sum.splits list.splits)
  from h r show ?thesis by blast
qed

theorem market_unavailable_no_writes_witness:
  "handle_contract_address empty_db market_down 1 7 None example_mint =
     (Reply_SolPriceError, empty_db, [Call_get_sol_price]) \<and>
   register_wallet_command empty_db market_down 1 7 None [example_mint] =
     (Reply_SolPriceError, empty_db, [Call_get_sol_price]) \<and>
   fle (get_sol_price market_down) (Fin 0) \<and>
   fle (get_latest_close_price_in_sol market_down (strip example_mint)) (Fin 0) \<and>
   outcome_of Reply_SolPriceError = MarketDataUnavailable \<and>
   is_valid_solana_address (strip example_mint) \<and>
   find_one_pick empty_db 1 (strip example_mint) = None"
proof -
  note t = market_unavailable_no_writes
    [OF handle_contract_address_market_down register_wallet_command_market_down]
  have p: "fle (get_sol_price market_down) (Fin 0)"
    by (simp add: market_down_def)
  have c: "fle (get_latest_close_price_in_sol market_down (strip example_mint)) (Fin 0)"
    by (simp add: market_down_def)
  have m: "Call_get_sol_price \<in> set [Call_get_sol_price]"
    by simp
  from t p m have o: "outcome_of Reply_SolPriceError = MarketDataUnavailable"
    by blast
  from t m have v: "is_valid_solana_address (strip example_mint) \<and>
      find_one_pick empty_db 1 (strip example_mint) = None"
    by blast
  show ?thesis
    using handle_contract_address_market_down register_wallet_command_market_down p c o v
    by blast
qed

lemma filter_key_distinct:
  assumes "distinct (map f xs)" and "x \<in> set xs"
  shows "filter (\<lambda>q. f q = f x) xs = [x]"
  using assms
proof (induction xs)
  case Nil
  then show ?case by simp
next
  case (Cons y ys)
  show ?case
  proof (cases "y = x")
    case True
    from Cons.prems(1) have "f y \<notin> f ` set ys" by simp
    with True have "\<forall>q \<in> set ys. f q \<noteq> f x" by (metis imageI)
    then have "filter (\<lambda>q. f q = f x) ys = []" by (simp add: filter_empty_conv)
    with True show ?thesis by simp
  next
    case False
    with Cons.prems have x: "x \<in> set ys" and d: "distinct (map f ys)" by auto
    from Cons.prems(1) x have "f y \<noteq> f x" by auto
    with Cons.IH [OF d x] show ?thesis by simp
  qed
qed

lemma handle_contract_address_unique_picks:
  assumes "unique_picks d"
  shows "unique_picks (fst (snd (handle_contract_address d e chat user uname t)))"
  using dispatch_unique_picks [OF assms, of e
      "\<lparr>effective_chat = chat, effective_user = user, effective_username = uname,
        content = Text_message t\<rparr>"]
  by (simp add: dispatch_def)

text \<open>
  Claim C5: after \<^verbatim>\<open>handle_contract_address\<close> has stored a position for a chat and a mint
  address, every later call for the same chat and text, by any user, under any market data
  and after any updates in between, answers \<open>DuplicateKey\<close> and leaves the ledger as it is;
  in a ledger with unique keys the stored position stays the only one with its key.
  Uniqueness of \<^verbatim>\<open>(chat_id, mint_address)\<close> in the picks collection is preserved by every
  update the bot handles, and so by every sequence of them.
\<close>

theorem duplicate_pick_rejected:
  "(handle_contract_address d e chat user uname t = (Reply_PickAdded p, d1, calls) \<longrightarrow>
      (\<forall>evs e' user' uname'.
         handle_contract_address (run d1 evs) e' chat user' uname' t =
           (Reply_AlreadyShilled (strip t), run d1 evs, []) \<and>
         outcome_of (Reply_AlreadyShilled (strip t)) = DuplicateKey \<and>
         (unique_picks d \<longrightarrow>
            filter (\<lambda>q. chat_id q = chat \<and> mint_address q = strip t)
              (picks_collection (run d1 evs)) = [p]))) \<and>
   (unique_picks d \<longrightarrow> unique_picks (fst (snd (dispatch d e u))) \<and>
      (\<forall>evs. unique_picks (run d evs)))"
proof (intro conjI impI allI)
  fix evs e' user' uname'
  assume a: "handle_contract_address d e chat user uname t = (Reply_PickAdded p, d1, calls)"
  note f = handle_contract_address_added [OF a]
  have "p \<in> set (picks_collection d1)" by (simp add: f(6))
  then have mem: "p \<in> set (picks_collection (run d1 evs))"
    using run_picks_prefix [of d1 evs] by (auto simp: prefix_def)
  have key: "chat_id p = chat \<and> mint_address p = strip t"
    by (subst (1 2) f(5)) simp
  from mem key
  have ex: "\<exists>q \<in> set (picks_collection (run d1 evs)). chat_id q = chat \<and> mint_address q = strip t"
    by blast
  show "handle_contract_address (run d1 evs) e' chat user' uname' t =
          (Reply_AlreadyShilled (strip t), run d1 evs, [])"
    by (rule handle_contract_address_duplicate [OF f(1) ex])
  show "outcome_of (Reply_AlreadyShilled (strip t)) = DuplicateKey" by simp
  show "filter (\<lambda>q. chat_id q = chat \<and> mint_address q = strip t)
          (picks_collection (run d1 evs)) = [p]" if u: "unique_picks d"
  proof -
    have "unique_picks d1"
      using handle_contract_address_unique_picks [OF u, of e chat user uname t]
      by (simp add: a)
    then have "unique_picks (run d1 evs)" by (rule run_unique_picks)
    then have "distinct (map (\<lambda>q. (chat_id q, mint_address q)) (picks_collection (run d1 evs)))"
      by (simp add: unique_picks_def)
    from filter_key_distinct [OF this mem] show ?thesis
      by (simp add: key)
  qed
next
  assume "unique_picks d"
  then show "unique_picks (fst (snd (dispatch d e u)))" by (rule dispatch_unique_picks)
next
  fix evs
  assume "unique_picks d"
  then show "unique_picks (run d evs)" by (rule run_unique_picks)
qed

theorem duplicate_pick_rejected_witness:
  "handle_contract_address empty_db market_200 1 7 None example_mint =
     (Reply_PickAdded pick_200, db_200,
      [Call_get_sol_price, Call_get_latest_close_price_in_sol example_mint]) \<and>
   handle_contract_address db_200 market_down 1 8 (Some ''bob'') example_mint =
     (Reply_AlreadyShilled example_mint, db_200, []) \<and>
   unique_picks empty_db \<and>
   filter (\<lambda>q. chat_id q = 1 \<and> mint_address q = example_mint) (picks_collection db_200) =
     [pick_200] \<and>
   unique_picks (fst (snd (dispatch empty_db market_200 update_shill))) \<and>
   fst (snd (dispatch empty_db market_200 update_shill)) = db_200"
proof -
  note t = duplicate_pick_rejected
    [where d = empty_db and e = market_200 and chat = 1 and user = 7 and uname = None
       and t = example_mint and p = pick_200 and ?d1.0 = db_200 and u = update_shill
       and calls = "[Call_get_sol_price, Call_get_latest_close_price_in_sol example_mint]"]
  note h = handle_contract_address_market_200
  have u0: "unique_picks empty_db"
    by (simp add: unique_picks_def empty_db_def)
  from t h have a: "\<forall>evs e' user' uname'.
      handle_contract_address (run db_200 evs) e' 1 user' uname' example_mint =
        (Reply_AlreadyShilled (strip example_mint), run db_200 evs, []) \<and>
      outcome_of (Reply_AlreadyShilled (strip example_mint)) = DuplicateKey \<and>
      (unique_picks empty_db \<longrightarrow>
         filter (\<lambda>q. chat_id q = 1 \<and> mint_address q = strip example_mint)
           (picks_collection (run db_200 evs)) = [pick_200])"
    by blast
  then have "handle_contract_address (run db_200 []) market_down 1 8 (Some ''bob'') example_mint =
      (Reply_AlreadyShilled (strip example_mint), run db_200 [], [])"
    by blast
  then have second: "handle_contract_address db_200 market_down 1 8 (Some ''bob'') example_mint =
      (Reply_AlreadyShilled example_mint, db_200, [])"
    by (simp add: strip_example_mint)
  from a u0 have "filter (\<lambda>q. chat_id q = 1 \<and> mint_address q = strip example_mint)
           (picks_collection (run db_200 [])) = [pick_200]"
    by blast
  then have one: "filter (\<lambda>q. chat_id q = 1 \<and> mint_address q = example_mint)
      (picks_collection db_200) = [pick_200]"
    by (simp add: strip_example_mint)
  from t u0 have u1: "unique_picks (fst (snd (dispatch empty_db market_200 update_shill)))"
    by blast
  have d: "fst (snd (dispatch empty_db market_200 update_shill)) = db_200"
    by (simp add: dispatch_def update_shill_def h)
  show ?thesis
    by (intro conjI) (fact h second u0 one u1 d)+
qed

text \<open>
  Claim C10: for a chat and user without stored positions \<^verbatim>\<open>share_command\<close> answers
  \<open>NoPositions\<close> and has made no market data call, whatever the market data functions would
  have returned: the emptiness check precedes the reference price fetch.
\<close>

theorem share_without_picks_reads_no_market_data:
  assumes "find_user_picks d chat user = []"
  shows "share_command d e chat user uname = (Reply_NoPicksForUser, []) \<and>
         outcome_of (fst (share_command d e chat user uname)) = NoPositions"
  using assms by (simp add: share_command_def)

theorem share_without_picks_reads_no_market_data_witness:
  "find_user_picks empty_db 1 7 = [] \<and> fle (get_sol_price market_down) (Fin 0) \<and>
   share_command empty_db market_down 1 7 None = (Reply_NoPicksForUser, [])"
proof -
  have h: "find_user_picks empty_db 1 7 = []"
    by (simp add: find_user_picks_def empty_db_def)
  from share_without_picks_reads_no_market_data [OF h, of market_down None] h
  show ?thesis by (simp add: market_down_def)
qed

section \<open>Leaderboards and valuation\<close>

subsection \<open>Comparisons and the sort\<close>

lemma fle_trans: "fle u v \<Longrightarrow> fle v w \<Longrightarrow> fle u w"
  by (cases u; cases v; cases w) simp_all

lemma not_flt_fle: "u \<noteq> NaN \<Longrightarrow> v \<noteq> NaN \<Longrightarrow> (\<not> flt v u) = fle u v"
  by (cases u; cases v) auto

lemma flt_fle: "flt u v \<Longrightarrow> fle u v"
  by (cases u; cases v) auto

lemma flt_neq: "flt u v \<Longrightarrow> u \<noteq> v"
  by (cases u; cases v) auto

lemma fle_antisym: "fle u v \<Longrightarrow> fle v u \<Longrightarrow> u = v"
  by (cases u; cases v) auto

lemma insort_lt_mset: "mset (insort_lt k x ys) = add_mset x (mset ys)"
  by (induction ys) simp_all

lemma insort_lt_set: "set (insort_lt k x ys) = insert x (set ys)"
  by (induction ys) auto

lemma insertion_sort_Cons: "insertion_sort k (x # xs) = insort_lt k x (insertion_sort k xs)"
  by (simp add: insertion_sort_def)

lemma insertion_sort_Nil: "insertion_sort k [] = []"
  by (simp add: insertion_sort_def)

lemma insertion_sort_mset: "mset (insertion_sort k xs) = mset xs"
  by (induction xs) (simp_all add: insertion_sort_Nil insertion_sort_Cons insort_lt_mset)

lemma insertion_sort_set: "set (insertion_sort k xs) = set xs"
  by (induction xs) (simp_all add: insertion_sort_Nil insertion_sort_Cons insort_lt_set)

lemma list_sort_mset: "mset (list_sort k xs) = mset xs"
  by (simp add: list_sort_def insertion_sort_mset)

lemma sort_reverse_mset: "mset (sort_reverse k xs) = mset xs"
  by (simp add: sort_reverse_def list_sort_mset)

lemma sort_reverse_length: "length (sort_reverse k xs) = length xs"
  by (rule mset_eq_length) (rule sort_reverse_mset)

lemma insort_lt_sorted:
  assumes "k x \<noteq> NaN" and "\<forall>y \<in> set ys. k y \<noteq> NaN"
    and "sorted_wrt (\<lambda>a b. fle (k a) (k b)) ys"
  shows "sorted_wrt (\<lambda>a b. fle (k a) (k b)) (insort_lt k x ys)"
  using assms
proof (induction ys)
  case Nil
  show ?case by simp
next
  case (Cons y ys)
  show ?case
  proof (cases "flt (k y) (k x)")
    case False
    with Cons.prems have xy: "fle (k x) (k y)" by (simp add: not_flt_fle)
    have "fle (k x) (k z)" if "z \<in> set ys" for z
    proof -
      from Cons.prems(3) that have "fle (k y) (k z)" by simp
      with xy show ?thesis by (rule fle_trans)
    qed
    with xy False Cons.prems(3) show ?thesis by simp
  next
    case True
    then have yx: "fle (k y) (k x)" by (rule flt_fle)
    have "sorted_wrt (\<lambda>a b. fle (k a) (k b)) (insort_lt k x ys)"
      using Cons by simp
    moreover have "\<forall>z \<in> set (insort_lt k x ys). fle (k y) (k z)"
      using yx Cons.prems(3) by (simp add: insort_lt_set)
    ultimately show ?thesis using True by simp
  qed
qed

lemma insertion_sort_sorted:
  assumes "\<forall>x \<in> set xs. k x \<noteq> NaN"
  shows "sorted_wrt (\<lambda>a b. fle (k a) (k b)) (insertion_sort k xs)"
  using assms
proof (induction xs)
  case Nil
  show ?case by (simp add: insertion_sort_Nil)
next
  case (Cons x xs)
  then show ?case
    by (simp add: insertion_sort_Cons insort_lt_sorted insertion_sort_set)
qed

lemma ascending_run_sorted:
  assumes "\<forall>x \<in> set xs. k x \<noteq> NaN" and "ascending_run k xs"
  shows "sorted_wrt (\<lambda>a b. fle (k a) (k b)) xs"
  using assms
proof (induction k xs rule: ascending_run.induct)
  case (1 k x y ys)
  then have xy: "fle (k x) (k y)" and s: "sorted_wrt (\<lambda>a b. fle (k a) (k b)) (y # ys)"
    by (simp_all add: not_flt_fle)
  have "fle (k x) (k z)" if "z \<in> set ys" for z
  proof -
    from s that have "fle (k y) (k z)" by simp
    with xy show ?thesis by (rule fle_trans)
  qed
  with xy s show ?case by simp
qed simp_all

lemma list_sort_sorted:
  assumes "\<forall>x \<in> set xs. k x \<noteq> NaN"
  shows "sorted_wrt (\<lambda>a b. fle (k a) (k b)) (list_sort k xs)"
  using assms by (simp add: list_sort_def ascending_run_sorted insertion_sort_sorted)

lemma sort_reverse_sorted:
  assumes "\<forall>x \<in> set xs. k x \<noteq> NaN"
  shows "sorted_wrt (\<lambda>a b. fle (k b) (k a)) (sort_reverse k xs)"
proof -
  have "sorted_wrt (\<lambda>a b. fle (k a) (k b)) (list_sort k (rev xs))"
    using assms by (intro list_sort_sorted) simp
  then show ?thesis
    by (simp add: sort_reverse_def sorted_wrt_rev)
qed

lemma insort_lt_filter:
  "filter (\<lambda>y. k y = v) (insort_lt k x ys) =
     (if k x = v then x # filter (\<lambda>y. k y = v) ys else filter (\<lambda>y. k y = v) ys)"
  by (induction ys) (auto dest: flt_neq)

lemma insertion_sort_filter:
  "filter (\<lambda>y. k y = v) (insertion_sort k xs) = filter (\<lambda>y. k y = v) xs"
  by (induction xs) (simp_all add: insertion_sort_Nil insertion_sort_Cons insort_lt_filter)

lemma sort_reverse_stable:
  "filter (\<lambda>y. k y = v) (sort_reverse k xs) = filter (\<lambda>y. k y = v) xs"
proof -
  have "filter (\<lambda>y. k y = v) (list_sort k (rev xs)) = filter (\<lambda>y. k y = v) (rev xs)"
    by (simp add: list_sort_def insertion_sort_filter)
  then have "rev (filter (\<lambda>y. k y = v) (list_sort k (rev xs))) = filter (\<lambda>y. k y = v) xs"
    by (simp add: rev_filter)
  then show ?thesis
    by (simp add: sort_reverse_def rev_filter)
qed

lemma sort_reverse_run:
  "ascending_run k (rev xs) \<Longrightarrow> sort_reverse k xs = xs"
  by (simp add: sort_reverse_def list_sort_def)

lemma ranking:
  assumes "rows = enumerate 1 (take 10 (sort_reverse k xs))"
  shows "map fst rows = [1 ..< Suc (length rows)]"
    and "length rows \<le> 10"
    and "length rows = min 10 (length xs)"
    and "(\<forall>x \<in> set xs. k x \<noteq> NaN) \<Longrightarrow> sorted_wrt (\<lambda>u v. fle v u) (map k (map snd rows))"
    and "prefix (filter (\<lambda>y. k y = v) (map snd rows)) (filter (\<lambda>y. k y = v) xs)"
    and "mset (map snd rows) \<subseteq># mset xs"
proof -
  have s: "map snd rows = take 10 (sort_reverse k xs)"
    by (simp add: assms)
  show "map fst rows = [1 ..< Suc (length rows)]"
    by (simp add: assms)
  show "length rows \<le> 10"
    by (simp add: assms)
  show "length rows = min 10 (length xs)"
    by (simp add: assms sort_reverse_length min.commute)
  show "sorted_wrt (\<lambda>u v. fle v u) (map k (map snd rows))" if "\<forall>x \<in> set xs. k x \<noteq> NaN"
  proof -
    have "sorted_wrt (\<lambda>a b. fle (k b) (k a)) (take 10 (sort_reverse k xs))"
      using sort_reverse_sorted [OF that] by (rule sorted_wrt_take)
    then show ?thesis
      by (simp add: s sorted_wrt_map)
  qed
  have "prefix (filter (\<lambda>y. k y = v) (take 10 (sort_reverse k xs)))
          (filter (\<lambda>y. k y = v) (sort_reverse k xs))"
    by (rule filter_mono_prefix) (rule take_is_prefix)
  then show "prefix (filter (\<lambda>y. k y = v) (map snd rows)) (filter (\<lambda>y. k y = v) xs)"
    by (simp add: s sort_reverse_stable)
  have "mset (take 10 (sort_reverse k xs)) \<subseteq># mset (sort_reverse k xs)"
    by (metis append_take_drop_id mset_append mset_subset_eq_add_left)
  then show "mset (map snd rows) \<subseteq># mset xs"
    by (simp only: s sort_reverse_mset)
qed

lemma leaderboard_command_rows:
  assumes "leaderboard_command d e chat = (Reply_Leaderboard rows, calls)"
  shows "rows = enumerate 1 (take 10 (sort_reverse item_pnl
           (map (token_item_of e (get_sol_price e)) (find_picks d chat))))"
    and "\<not> fle (get_sol_price e) (Fin 0)" and "find_picks d chat \<noteq> []"
  using assms by (auto simp: leaderboard_command_def Let_def split: if_splits)

lemma sniper_leaderboard_command_rows:
  assumes "sniper_leaderboard_command d e chat = (Reply_SniperLeaderboard rows, calls)"
  shows "rows = enumerate 1 (take 10 (sort_reverse witem_pnl_usd
           (map (wallet_item_of e) (find_wallets d chat))))"
    and "\<not> fle (get_sol_price e) (Fin 0)" and "find_wallets d chat \<noteq> []"
  using assms by (auto simp: sniper_leaderboard_command_def Let_def split: if_splits)

subsection \<open>Evaluation of the examples\<close>

lemma round64_50: "round64 50 = Fin 50" by (simp add: float_eval)
lemma round64_100: "round64 100 = Fin 100" by (simp add: float_eval)
lemma round64_200: "round64 200 = Fin 200" by (simp add: float_eval)
lemma round64_30: "round64 30 = Fin 30" by (simp add: float_eval)
lemma round64_m70: "round64 (- 70) = Fin (- 70)" by (simp add: float_eval)
lemma round64_m20: "round64 (- 20) = Fin (- 20)" by (simp add: float_eval)
lemma round64_m100: "round64 (- 100) = Fin (- 100)" by (simp add: float_eval)

lemma token_items_board:
  "token_item_of market_board (Fin 200) pick_a = item_a"
  "token_item_of market_board (Fin 200) pick_b = item_b"
  "token_item_of market_board (Fin 200) pick_c = item_c"
  by (simp_all add: token_item_of_def market_board_def pick_a_def pick_b_def pick_c_def
      item_a_def item_b_def item_c_def fsub_def
      round64_50 round64_100 round64_200 round64_0)

lemma wallet_items_board:
  "wallet_item_of market_board wallet_a = witem_a"
  "wallet_item_of market_board wallet_b = witem_b"
  by (simp_all add: wallet_item_of_def market_board_def wallet_a_def wallet_b_def
      witem_a_def witem_b_def fsub_def dict_get_def
      round64_30 round64_m70 round64_m20 round64_0)

lemma sort_reverse_items_board:
  "sort_reverse item_pnl [item_a, item_b, item_c] = [item_b, item_a, item_c]"
proof -
  have k: "item_pnl item_a = Fin 0" "item_pnl item_b = Fin 100" "item_pnl item_c = Fin 0"
    by (simp_all add: item_a_def item_b_def item_c_def)
  show ?thesis
    by (simp add: sort_reverse_def list_sort_def insertion_sort_def k)
qed

lemma leaderboard_command_board:
  "leaderboard_command db_board market_board 1 =
     (Reply_Leaderboard [(1, item_b), (2, item_a), (3, item_c)],
      [Call_get_sol_price, Call_get_latest_close_price_in_sol example_mint,
       Call_get_latest_close_price_in_sol mint_b, Call_get_latest_close_price_in_sol mint_c])"
proof -
  have f: "find_picks db_board 1 = [pick_a, pick_b, pick_c]"
    by (simp add: find_picks_def db_board_def pick_a_def pick_b_def pick_c_def)
  have s: "get_sol_price market_board = Fin 200"
    by (simp add: market_board_def)
  have m: "mint_address pick_a = example_mint" "mint_address pick_b = mint_b"
    "mint_address pick_c = mint_c"
    by (simp_all add: pick_a_def pick_b_def pick_c_def)
  show ?thesis
    by (simp add: leaderboard_command_def f s token_items_board sort_reverse_items_board m
        enumerate_eq_zip upt_conv_Cons)
qed

lemma sort_reverse_witems_board:
  "sort_reverse witem_pnl_usd [witem_a, witem_b] = [witem_b, witem_a]"
proof -
  have k: "witem_pnl_usd witem_a = Fin (- 70)" "witem_pnl_usd witem_b = Fin (- 20)"
    by (simp_all add: witem_a_def witem_b_def)
  show ?thesis
    by (simp add: sort_reverse_def list_sort_def insertion_sort_def k)
qed

lemma sniper_leaderboard_command_board:
  "sniper_leaderboard_command db_board market_board 1 =
     (Reply_SniperLeaderboard [(1, witem_b), (2, witem_a)],
      [Call_get_sol_price, Call_get_wallet_balances mint_b, Call_get_wallet_balances mint_c])"
proof -
  have f: "find_wallets db_board 1 = [wallet_a, wallet_b]"
    by (simp add: find_wallets_def db_board_def wallet_a_def wallet_b_def)
  have s: "get_sol_price market_board = Fin 200"
    by (simp add: market_board_def)
  have m: "wallet_address wallet_a = mint_b" "wallet_address wallet_b = mint_c"
    by (simp_all add: wallet_a_def wallet_b_def)
  show ?thesis
    by (simp add: sniper_leaderboard_command_def f s wallet_items_board
        sort_reverse_witems_board m enumerate_eq_zip upt_conv_Cons)
qed

lemma is_float64_2_1023: "is_float64 (2 ^ 1023)"
proof -
  have "of_int (2 ^ 52) * pow2 971 = (2 :: real) ^ 1023"
    by (simp add: pow2_def)
  moreover have "of_int (2 ^ 52) * pow2 971 < pow2 1024"
    by (simp add: pow2_def)
  ultimately show ?thesis
    using round64_fixes_normal [of "2 ^ 52" 971] by (simp add: is_float64_def)
qed

lemma overflow_2_1025: "round64 (2 ^ 1023 * 4) = PInf"
  by (rule round64_overflow) (simp add: pow2_def)

lemma wallet_items_nan:
  "wallet_item_of market_nan wallet_1 = witem_1"
  "wallet_item_of market_nan wallet_2 = witem_2"
  "wallet_item_of market_nan wallet_3 = witem_3"
proof -
  have d: "mint_c \<noteq> mint_b" "example_mint \<noteq> mint_b" "example_mint \<noteq> mint_c"
    by (simp_all add: mint_b_def mint_c_def example_mint_def)
  show "wallet_item_of market_nan wallet_1 = witem_1"
    by (simp add: wallet_item_of_def market_nan_def wallet_1_def witem_1_def fsub_def
        dict_get_def round64_100 round64_0)
  show "wallet_item_of market_nan wallet_3 = witem_3"
    by (simp add: wallet_item_of_def market_nan_def wallet_3_def witem_3_def fsub_def
        dict_get_def round64_100 round64_200 d)
  have n: "round64 (- (2 ^ 1023 * 4)) = NInf"
    by (simp only: round64_uminus overflow_2_1025 fneg.simps)
  have b: "get_wallet_balances market_nan example_mint =
      [[''balance'' \<mapsto> Fin (2 ^ 1023), ''value'' \<mapsto> Fin 4],
       [''balance'' \<mapsto> Fin (- (2 ^ 1023)), ''value'' \<mapsto> Fin 4]]"
    by (simp add: market_nan_def d)
  have t: "total_usd_loop (Fin 0)
      [[''balance'' \<mapsto> Fin (2 ^ 1023), ''value'' \<mapsto> Fin 4],
       [''balance'' \<mapsto> Fin (- (2 ^ 1023)), ''value'' \<mapsto> Fin 4]] = NaN"
    by (simp add: dict_get_def overflow_2_1025 n del: power_numeral)
  show "wallet_item_of market_nan wallet_2 = witem_2"
    by (simp only: wallet_item_of_def Let_def wallet_2_def wallet.simps b t)
       (simp add: witem_2_def fsub_def)
qed

lemma sniper_leaderboard_command_nan:
  "sniper_leaderboard_command db_nan market_nan 1 =
     (Reply_SniperLeaderboard [(1, witem_1), (2, witem_2), (3, witem_3)],
      [Call_get_sol_price, Call_get_wallet_balances mint_b,
       Call_get_wallet_balances example_mint, Call_get_wallet_balances mint_c])"
proof -
  have f: "find_wallets db_nan 1 = [wallet_1, wallet_2, wallet_3]"
    by (simp add: find_wallets_def db_nan_def wallet_1_def wallet_2_def wallet_3_def)
  have s: "get_sol_price market_nan = Fin 200"
    by (simp add: market_nan_def)
  have m: "wallet_address wallet_1 = mint_b" "wallet_address wallet_2 = example_mint"
    "wallet_address wallet_3 = mint_c"
    by (simp_all add: wallet_1_def wallet_2_def wallet_3_def)
  have k: "witem_pnl_usd witem_1 = Fin 0" "witem_pnl_usd witem_2 = NaN"
    "witem_pnl_usd witem_3 = Fin 100"
    by (simp_all add: witem_1_def witem_2_def witem_3_def)
  have o: "sort_reverse witem_pnl_usd [witem_1, witem_2, witem_3] = [witem_1, witem_2, witem_3]"
    by (rule sort_reverse_run) (simp add: k)
  show ?thesis
    by (simp add: sniper_leaderboard_command_def f s wallet_items_nan o m enumerate_eq_zip
        upt_conv_Cons)
qed

text \<open>
  Claim C2, as stated: every leaderboard is sorted by PnL in non-increasing order. A PnL can
  be NaN, and then the order of the output is not the order of the PnL values. The wallet
  of the second of three users holds \<^verbatim>\<open>2 ^ 1023\<close> and \<^verbatim>\<open>- 2 ^ 1023\<close> tokens of unit value 4.0:
  the two products overflow to plus and minus infinity, their sum and the PnL are NaN. The
  other wallets have PnL 0.0 and 100.0. No comparison with NaN is true, so the sort finds
  the reversed list \<^verbatim>\<open>[100.0, nan, 0.0]\<close> in order already and leaves it: rank 1 has PnL 0.0
  and rank 3 has PnL 100.0.
\<close>

theorem leaderboard_nan_counterexample:
  "is_float64 (2 ^ 1023) \<and>
   get_wallet_balances market_nan (wallet_address wallet_2) =
     [[''balance'' \<mapsto> Fin (2 ^ 1023), ''value'' \<mapsto> Fin 4],
      [''balance'' \<mapsto> Fin (- (2 ^ 1023)), ''value'' \<mapsto> Fin 4]] \<and>
   sniper_leaderboard_command db_nan market_nan 1 =
     (Reply_SniperLeaderboard [(1, witem_1), (2, witem_2), (3, witem_3)],
      [Call_get_sol_price, Call_get_wallet_balances mint_b,
       Call_get_wallet_balances example_mint, Call_get_wallet_balances mint_c]) \<and>
   witem_pnl_usd witem_1 = Fin 0 \<and> witem_pnl_usd witem_2 = NaN \<and>
   witem_pnl_usd witem_3 = Fin 100 \<and>
   flt (witem_pnl_usd witem_1) (witem_pnl_usd witem_3) \<and>
   \<not> fle (witem_pnl_usd witem_3) (witem_pnl_usd witem_1) \<and>
   \<not> fle (witem_pnl_usd witem_2) (witem_pnl_usd witem_1)"
proof -
  have d: "example_mint \<noteq> mint_b" "example_mint \<noteq> mint_c"
    by (simp_all add: mint_b_def mint_c_def example_mint_def)
  have b: "get_wallet_balances market_nan (wallet_address wallet_2) =
     [[''balance'' \<mapsto> Fin (2 ^ 1023), ''value'' \<mapsto> Fin 4],
      [''balance'' \<mapsto> Fin (- (2 ^ 1023)), ''value'' \<mapsto> Fin 4]]"
    by (simp add: market_nan_def wallet_2_def d)
  have k: "witem_pnl_usd witem_1 = Fin 0" "witem_pnl_usd witem_2 = NaN"
    "witem_pnl_usd witem_3 = Fin 100"
    by (simp_all add: witem_1_def witem_2_def witem_3_def)
  have c: "flt (witem_pnl_usd witem_1) (witem_pnl_usd witem_3)"
    "\<not> fle (witem_pnl_usd witem_3) (witem_pnl_usd witem_1)"
    "\<not> fle (witem_pnl_usd witem_2) (witem_pnl_usd witem_1)"
    by (simp_all add: k)
  show ?thesis
    by (intro conjI) (fact is_float64_2_1023 b sniper_leaderboard_command_nan k c)+
qed

text \<open>
  Claim C2, amended: in every leaderboard the bot replies with, of picks or of wallets, the
  ranks are 1, 2, ... in order and there are at most 10 rows. If no PnL computed in the pass
  is NaN, then the PnL does not increase from one row to the next, and for each PnL value the
  rows with that value are, in order, the first of the items with that value in the order
  the ledger returned them: ties keep their input order.
\<close>

theorem leaderboards_ranked:
  "(leaderboard_command d e chat = (Reply_Leaderboard rows, calls) \<longrightarrow>
      map fst rows = [1 ..< Suc (length rows)] \<and>
      length rows \<le> 10 \<and>
      ((\<forall>i \<in> set (map (token_item_of e (get_sol_price e)) (find_picks d chat)).
          item_pnl i \<noteq> NaN) \<longrightarrow>
       sorted_wrt (\<lambda>u v. fle v u) (map item_pnl (map snd rows)) \<and>
       (\<forall>v. prefix (filter (\<lambda>i. item_pnl i = v) (map snd rows))
              (filter (\<lambda>i. item_pnl i = v)
                 (map (token_item_of e (get_sol_price e)) (find_picks d chat)))))) \<and>
   (sniper_leaderboard_command d e chat = (Reply_SniperLeaderboard wrows, wcalls) \<longrightarrow>
      map fst wrows = [1 ..< Suc (length wrows)] \<and>
      length wrows \<le> 10 \<and>
      ((\<forall>i \<in> set (map (wallet_item_of e) (find_wallets d chat)). witem_pnl_usd i \<noteq> NaN) \<longrightarrow>
       sorted_wrt (\<lambda>u v. fle v u) (map witem_pnl_usd (map snd wrows)) \<and>
       (\<forall>v. prefix (filter (\<lambda>i. witem_pnl_usd i = v) (map snd wrows))
              (filter (\<lambda>i. witem_pnl_usd i = v)
                 (map (wallet_item_of e) (find_wallets d chat))))))"
proof (intro conjI impI allI)
  assume a: "leaderboard_command d e chat = (Reply_Leaderboard rows, calls)"
  note r = ranking [OF leaderboard_command_rows(1) [OF a]]
  show "map fst rows = [1 ..< Suc (length rows)]" by (rule r(1))
  show "length rows \<le> 10" by (rule r(2))
  show "sorted_wrt (\<lambda>u v. fle v u) (map item_pnl (map snd rows))"
    if "\<forall>i \<in> set (map (token_item_of e (get_sol_price e)) (find_picks d chat)).
          item_pnl i \<noteq> NaN"
    using that by (rule r(4))
  show "prefix (filter (\<lambda>i. item_pnl i = v) (map snd rows))
          (filter (\<lambda>i. item_pnl i = v)
             (map (token_item_of e (get_sol_price e)) (find_picks d chat)))" for v
    by (rule r(5))
next
  assume a: "sniper_leaderboard_command d e chat = (Reply_SniperLeaderboard wrows, wcalls)"
  note r = ranking [OF sniper_leaderboard_command_rows(1) [OF a]]
  show "map fst wrows = [1 ..< Suc (length wrows)]" by (rule r(1))
  show "length wrows \<le> 10" by (rule r(2))
  show "sorted_wrt (\<lambda>u v. fle v u) (map witem_pnl_usd (map snd wrows))"
    if "\<forall>i \<in> set (map (wallet_item_of e) (find_wallets d chat)). witem_pnl_usd i \<noteq> NaN"
    using that by (rule r(4))
  show "prefix (filter (\<lambda>i. witem_pnl_usd i = v) (map snd wrows))
          (filter (\<lambda>i. witem_pnl_usd i = v)
             (map (wallet_item_of e) (find_wallets d chat)))" for v
    by (rule r(5))
qed

theorem leaderboards_ranked_witness:
  "leaderboard_command db_board market_board 1 =
     (Reply_Leaderboard [(1, item_b), (2, item_a), (3, item_c)],
      [Call_get_sol_price, Call_get_latest_close_price_in_sol example_mint,
       Call_get_latest_close_price_in_sol mint_b, Call_get_latest_close_price_in_sol mint_c]) \<and>
   sniper_leaderboard_command db_board market_board 1 =
     (Reply_SniperLeaderboard [(1, witem_b), (2, witem_a)],
      [Call_get_sol_price, Call_get_wallet_balances mint_b, Call_get_wallet_balances mint_c]) \<and>
   map (token_item_of market_board (get_sol_price market_board)) (find_picks db_board 1) =
     [item_a, item_b, item_c] \<and>
   map item_pnl [item_a, item_b, item_c] = [Fin 0, Fin 100, Fin 0] \<and>
   map (wallet_item_of market_board) (find_wallets db_board 1) = [witem_a, witem_b] \<and>
   map witem_pnl_usd [witem_a, witem_b] = [Fin (- 70), Fin (- 20)] \<and>
   sorted_wrt (\<lambda>u v. fle v u)
     (map item_pnl (map snd [(1 :: nat, item_b), (2, item_a), (3, item_c)])) \<and>
   prefix (filter (\<lambda>i. item_pnl i = Fin 0)
             (map snd [(1 :: nat, item_b), (2, item_a), (3, item_c)]))
     (filter (\<lambda>i. item_pnl i = Fin 0)
        (map (token_item_of market_board (get_sol_price market_board)) (find_picks db_board 1))) \<and>
   sorted_wrt (\<lambda>u v. fle v u) (map witem_pnl_usd (map snd [(1 :: nat, witem_b), (2, witem_a)]))"
proof -
  note t = leaderboards_ranked
    [where d = db_board and e = market_board and chat = 1
       and rows = "[(1, item_b), (2, item_a), (3, item_c)]"
       and wrows = "[(1, witem_b), (2, witem_a)]"
       and calls = "[Call_get_sol_price, Call_get_latest_close_price_in_sol example_mint,
         Call_get_latest_close_price_in_sol mint_b, Call_get_latest_close_price_in_sol mint_c]"
       and wcalls = "[Call_get_sol_price, Call_get_wallet_balances mint_b,
         Call_get_wallet_balances mint_c]"]
  note l = leaderboard_command_board
  note s = sniper_leaderboard_command_board
  have i: "map (token_item_of market_board (get_sol_price market_board))
      (find_picks db_board 1) = [item_a, item_b, item_c]"
  proof -
    have "find_picks db_board 1 = [pick_a, pick_b, pick_c]"
      by (simp add: find_picks_def db_board_def pick_a_def pick_b_def pick_c_def)
    moreover have "get_sol_price market_board = Fin 200"
      by (simp add: market_board_def)
    ultimately show ?thesis by (simp add: token_items_board)
  qed
  have k: "map item_pnl [item_a, item_b, item_c] = [Fin 0, Fin 100, Fin 0]"
    by (simp add: item_a_def item_b_def item_c_def)
  have w: "map (wallet_item_of market_board) (find_wallets db_board 1) = [witem_a, witem_b]"
  proof -
    have "find_wallets db_board 1 = [wallet_a, wallet_b]"
      by (simp add: find_wallets_def db_board_def wallet_a_def wallet_b_def)
    then show ?thesis by (simp add: wallet_items_board)
  qed
  have kw: "map witem_pnl_usd [witem_a, witem_b] = [Fin (- 70), Fin (- 20)]"
    by (simp add: witem_a_def witem_b_def)
  have n: "\<forall>i \<in> set (map (token_item_of market_board (get_sol_price market_board))
      (find_picks db_board 1)). item_pnl i \<noteq> NaN"
    unfolding i using k by simp
  have nw: "\<forall>i \<in> set (map (wallet_item_of market_board) (find_wallets db_board 1)).
      witem_pnl_usd i \<noteq> NaN"
    unfolding w using kw by simp
  from t l n
  have a: "sorted_wrt (\<lambda>u v. fle v u)
      (map item_pnl (map snd [(1 :: nat, item_b), (2, item_a), (3, item_c)]))"
    by blast
  from t l n
  have "\<forall>v. prefix (filter (\<lambda>i. item_pnl i = v)
                  (map snd [(1 :: nat, item_b), (2, item_a), (3, item_c)]))
          (filter (\<lambda>i. item_pnl i = v)
             (map (token_item_of market_board (get_sol_price market_board))
                (find_picks db_board 1)))"
    by blast
  then have b: "prefix (filter (\<lambda>i. item_pnl i = Fin 0)
                  (map snd [(1 :: nat, item_b), (2, item_a), (3, item_c)]))
          (filter (\<lambda>i. item_pnl i = Fin 0)
             (map (token_item_of market_board (get_sol_price market_board))
                (find_picks db_board 1)))"
    by (rule spec)
  from t s nw
  have c: "sorted_wrt (\<lambda>u v. fle v u)
      (map witem_pnl_usd (map snd [(1 :: nat, witem_b), (2, witem_a)]))"
    by blast
  show ?thesis
    by (intro conjI) (fact l s i k w kw a b c)+
qed

lemma float_0001: "round64 (1 / 10000) = Fin (7378697629483821 / 73786976294838206464)"
  by (simp add: float_eval)

lemma float_005: "round64 (1 / 20) = Fin (3602879701896397 / 72057594037927936)"
  by (simp add: float_eval)

lemma round64_75: "round64 75 = Fin 75" by (simp add: float_eval)

lemma entry_150:
  "fmul (Fin (1 / 2)) (Fin 150) = Fin 75"
  "fdiv (Fin (1 / 2)) (Fin (7378697629483821 / 73786976294838206464)) = Fin 5000"
  by (simp_all add: float_eval)

lemma valuation_150:
  "fmul (Fin (7378697629483821 / 73786976294838206464)) (Fin 150) =
     Fin (8646911284551353 / 576460752303423488)"
  "fmul (Fin 5000) (Fin (8646911284551353 / 576460752303423488)) = Fin 75"
  "fsub (Fin 75) (Fin 75) = Fin 0"
  by (simp_all add: fsub_def float_eval)

lemma handle_contract_address_market_150:
  "handle_contract_address empty_db market_150 1 7 None example_mint =
     (Reply_PickAdded pick_150, db_150,
      [Call_get_sol_price, Call_get_latest_close_price_in_sol example_mint])"
  by (simp add: handle_contract_address_def strip_example_mint valid_example_mint
      find_one_pick_def empty_db_def market_150_def insert_one_pick_def float_0001 entry_150 Let_def
      username_or_anonymous_def pick_150_def db_150_def del: fmul.simps fdiv.simps)

lemma sort_reverse_single: "sort_reverse k [x] = [x]"
  by (simp add: sort_reverse_def list_sort_def)

lemma leaderboard_command_market_150:
  "leaderboard_command db_150 market_150 1 =
     (Reply_Leaderboard [(1, item_150)],
      [Call_get_sol_price, Call_get_latest_close_price_in_sol example_mint])"
proof -
  have f: "find_picks db_150 1 = [pick_150]"
    by (simp add: find_picks_def db_150_def pick_150_def)
  have i: "token_item_of market_150 (Fin 150) pick_150 = item_150"
    by (simp add: token_item_of_def market_150_def pick_150_def item_150_def float_0001
        valuation_150 del: fmul.simps)
  have s: "get_sol_price market_150 = Fin 150"
    by (simp add: market_150_def)
  have m: "mint_address pick_150 = example_mint"
    by (simp add: pick_150_def)
  show ?thesis
    by (simp add: leaderboard_command_def f i s m sort_reverse_single enumerate_eq_zip Let_def)
qed

text \<open>
  Claim C9: with reference price 150 and trade price 0.0001 (the float nearest to it) the
  entry stores \<^verbatim>\<open>cost_basis_usd = 75.0\<close> and \<^verbatim>\<open>num_tokens = 5000.0\<close>, and a leaderboard computed
  under the same prices gives \<^verbatim>\<open>pnl = 0.0\<close>, in float arithmetic: the unit price in between
  is not exactly 0.015, but the product with 5000 rounds to 75.
\<close>

theorem zero_drift_scenario:
  "handle_contract_address empty_db market_150 1 7 None example_mint =
     (Reply_PickAdded pick_150, db_150,
      [Call_get_sol_price, Call_get_latest_close_price_in_sol example_mint]) \<and>
   get_sol_price market_150 = Fin 150 \<and>
   get_latest_close_price_in_sol market_150 example_mint = round64 (1 / 10000) \<and>
   cost_basis_usd pick_150 = Fin 75 \<and> num_tokens pick_150 = Fin 5000 \<and>
   leaderboard_command db_150 market_150 1 =
     (Reply_Leaderboard [(1, item_150)],
      [Call_get_sol_price, Call_get_latest_close_price_in_sol example_mint]) \<and>
   item_pnl item_150 = Fin 0"
  by (simp add: handle_contract_address_market_150 leaderboard_command_market_150)
     (simp add: market_150_def pick_150_def item_150_def)

lemma register_wallet_command_market_150:
  "register_wallet_command empty_db market_150 1 7 None [example_mint] =
     (Reply_WalletRegistered wallet_150, dbw_150, [Call_get_sol_price])"
  by (simp add: register_wallet_command_def strip_example_mint valid_example_mint
      find_one_wallet_def empty_db_def market_150_def insert_one_wallet_def entry_150 Let_def
      username_or_anonymous_def wallet_150_def dbw_150_def del: fmul.simps)

lemma holdings_150:
  "fmul (Fin 1000) (Fin (3602879701896397 / 72057594037927936)) = Fin 50"
  "fadd (Fin 0) (Fin 50) = Fin 50"
  "fmul (Fin 2) (Fin 10) = Fin 20"
  "fadd (Fin 50) (Fin 20) = Fin 70"
  "fsub (Fin 70) (Fin 75) = Fin (- 5)"
  by (simp_all add: fsub_def float_eval)

lemma wallet_item_of_150: "wallet_item_of market_150 wallet_150 = witem_150"
  by (simp add: wallet_item_of_def market_150_def wallet_150_def witem_150_def dict_get_def
      float_005 holdings_150 del: fmul.simps fadd.simps)

lemma sniper_leaderboard_command_market_150:
  "sniper_leaderboard_command dbw_150 market_150 1 =
     (Reply_SniperLeaderboard [(1, witem_150)],
      [Call_get_sol_price, Call_get_wallet_balances example_mint])"
proof -
  have f: "find_wallets dbw_150 1 = [wallet_150]"
    by (simp add: find_wallets_def dbw_150_def wallet_150_def)
  have s: "get_sol_price market_150 = Fin 150"
    by (simp add: market_150_def)
  have m: "wallet_address wallet_150 = example_mint"
    by (simp add: wallet_150_def)
  show ?thesis
    by (simp add: sniper_leaderboard_command_def f wallet_item_of_150 s m sort_reverse_single
        enumerate_eq_zip Let_def)
qed

lemma sniper_rows_items:
  assumes "sniper_leaderboard_command d e chat = (Reply_SniperLeaderboard rows, calls)"
  shows "\<forall>row \<in> set rows. \<exists>w \<in> set (find_wallets d chat). snd row = wallet_item_of e w"
proof
  fix row
  assume "row \<in> set rows"
  then have "snd row \<in># mset (map snd rows)" by simp
  moreover have "mset (map snd rows) \<subseteq># mset (map (wallet_item_of e) (find_wallets d chat))"
    by (rule ranking(6) [OF sniper_leaderboard_command_rows(1) [OF assms]])
  ultimately have "snd row \<in># mset (map (wallet_item_of e) (find_wallets d chat))"
    by (meson mset_subset_eqD)
  then show "\<exists>w \<in> set (find_wallets d chat). snd row = wallet_item_of e w"
    by auto
qed

lemma handle_contract_address_wallets:
  "wallets_collection (fst (snd (handle_contract_address d e chat user uname t))) =
     wallets_collection d"
  by (auto simp: handle_contract_address_def insert_one_pick_def Let_def
      split: if_splits option.splits)

lemma register_wallet_command_wallets:
  "prefix (wallets_collection d)
     (wallets_collection (fst (snd (register_wallet_command d e chat user uname args))))"
  by (auto simp: register_wallet_command_def insert_one_wallet_def Let_def
      split: if_splits option.splits list.splits)

lemma dispatch_wallets_prefix:
  "prefix (wallets_collection d) (wallets_collection (fst (snd (dispatch d e u))))"
proof (cases "content u")
  case (Text_message t)
  then show ?thesis
    by (simp add: dispatch_def handle_contract_address_wallets)
next
  case (Cmd_register_wallet args)
  then show ?thesis
    by (simp add: dispatch_def register_wallet_command_wallets)
qed (simp_all add: dispatch_def split: prod.splits)

lemma run_wallets_prefix: "prefix (wallets_collection d) (wallets_collection (run d evs))"
proof (induction evs arbitrary: d)
  case Nil
  show ?case by simp
next
  case (Cons ev evs)
  obtain e u where ev: "ev = (e, u)" by (cases ev)
  have "prefix (wallets_collection d) (wallets_collection (fst (snd (dispatch d e u))))"
    by (rule dispatch_wallets_prefix)
  also have "prefix \<dots> (wallets_collection (run (fst (snd (dispatch d e u))) evs))"
    by (rule Cons.IH)
  finally show ?case by (simp add: ev)
qed

lemma total_usd_loop_foldl:
  "total_usd_loop acc balances =
     foldl fadd acc
       (map (\<lambda>token_info. fmul (dict_get token_info ''balance'' (Fin 0))
                               (dict_get token_info ''value'' (Fin 0))) balances)"
  by (induction balances arbitrary: acc) (simp_all add: Let_def)

text \<open>
  Claim C7: the item computed for a wallet has as net worth the float sum, from left to
  right and starting at 0, of \<^verbatim>\<open>balance * value\<close> over the balances returned for the wallet,
  and as PnL the net worth minus the stored \<^verbatim>\<open>start_usd_value\<close>; every row of the sniper
  leaderboard is such an item of a wallet registered in the chat, and the registered
  wallets stay as they are under every later update. A wallet registered at
  reference price 150 starts at 75.0, and with the holdings (1000, 0.05) and (2, 10.0) its
  net worth is 70.0 and its PnL is -5.0.
\<close>

theorem wallet_valuation:
  "witem_net_worth_usd (wallet_item_of e w) =
     foldl fadd (Fin 0)
       (map (\<lambda>token_info. fmul (dict_get token_info ''balance'' (Fin 0))
                               (dict_get token_info ''value'' (Fin 0)))
          (get_wallet_balances e (wallet_address w))) \<and>
   witem_pnl_usd (wallet_item_of e w) =
     fsub (witem_net_worth_usd (wallet_item_of e w)) (start_usd_value w) \<and>
   (sniper_leaderboard_command d e chat = (Reply_SniperLeaderboard rows, calls) \<longrightarrow>
      (\<forall>row \<in> set rows. \<exists>w \<in> set (find_wallets d chat). snd row = wallet_item_of e w)) \<and>
   (\<forall>evs. prefix (wallets_collection d) (wallets_collection (run d evs))) \<and>
   register_wallet_command empty_db market_150 1 7 None [example_mint] =
     (Reply_WalletRegistered wallet_150, dbw_150, [Call_get_sol_price]) \<and>
   start_usd_value wallet_150 = Fin 75 \<and>
   get_wallet_balances market_150 example_mint =
     [[''balance'' \<mapsto> Fin 1000, ''value'' \<mapsto> round64 (1 / 20)],
      [''balance'' \<mapsto> Fin 2, ''value'' \<mapsto> Fin 10]] \<and>
   witem_net_worth_usd (wallet_item_of market_150 wallet_150) = Fin 70 \<and>
   witem_pnl_usd (wallet_item_of market_150 wallet_150) = Fin (- 5)"
proof (intro conjI impI allI)
  show "prefix (wallets_collection d) (wallets_collection (run d evs))" for evs
    by (rule run_wallets_prefix)
  show "witem_net_worth_usd (wallet_item_of e w) =
     foldl fadd (Fin 0)
       (map (\<lambda>token_info. fmul (dict_get token_info ''balance'' (Fin 0))
                               (dict_get token_info ''value'' (Fin 0)))
          (get_wallet_balances e (wallet_address w)))"
    by (simp add: wallet_item_of_def Let_def total_usd_loop_foldl)
  show "witem_pnl_usd (wallet_item_of e w) =
     fsub (witem_net_worth_usd (wallet_item_of e w)) (start_usd_value w)"
    by (simp add: wallet_item_of_def Let_def)
  show "register_wallet_command empty_db market_150 1 7 None [example_mint] =
     (Reply_WalletRegistered wallet_150, dbw_150, [Call_get_sol_price])"
    by (rule register_wallet_command_market_150)
  show "start_usd_value wallet_150 = Fin 75"
    by (simp add: wallet_150_def)
  show "get_wallet_balances market_150 example_mint =
     [[''balance'' \<mapsto> Fin 1000, ''value'' \<mapsto> round64 (1 / 20)],
      [''balance'' \<mapsto> Fin 2, ''value'' \<mapsto> Fin 10]]"
    by (simp add: market_150_def)
  show "witem_net_worth_usd (wallet_item_of market_150 wallet_150) = Fin 70"
    by (simp add: wallet_item_of_150 witem_150_def)
  show "witem_pnl_usd (wallet_item_of market_150 wallet_150) = Fin (- 5)"
    by (simp add: wallet_item_of_150 witem_150_def)
next
  assume "sniper_leaderboard_command d e chat = (Reply_SniperLeaderboard rows, calls)"
  then show "\<forall>row \<in> set rows. \<exists>w \<in> set (find_wallets d chat). snd row = wallet_item_of e w"
    by (rule sniper_rows_items)
qed

theorem wallet_valuation_witness:
  "sniper_leaderboard_command dbw_150 market_150 1 =
     (Reply_SniperLeaderboard [(1, witem_150)],
      [Call_get_sol_price, Call_get_wallet_balances example_mint]) \<and>
   (\<exists>w \<in> set (find_wallets dbw_150 1). witem_150 = wallet_item_of market_150 w) \<and>
   witem_net_worth_usd witem_150 = Fin 70 \<and> witem_pnl_usd witem_150 = Fin (- 5)"
proof -
  note t = wallet_valuation
    [where d = dbw_150 and e = market_150 and chat = 1 and rows = "[(1, witem_150)]"
       and calls = "[Call_get_sol_price, Call_get_wallet_balances example_mint]"]
  note s = sniper_leaderboard_command_market_150
  from t s
  have "\<forall>row \<in> set [(1 :: nat, witem_150)].
          \<exists>w \<in> set (find_wallets dbw_150 1). snd row = wallet_item_of market_150 w"
    by blast
  then have a: "\<exists>w \<in> set (find_wallets dbw_150 1). witem_150 = wallet_item_of market_150 w"
    by simp
  have b: "witem_net_worth_usd witem_150 = Fin 70" "witem_pnl_usd witem_150 = Fin (- 5)"
    by (simp_all add: witem_150_def)
  show ?thesis
    by (intro conjI) (fact s a b)+
qed

subsection \<open>Failed price reads\<close>

lemma leaderboard_command_negative:
  "leaderboard_command db_200 market_negative 1 =
     (Reply_Leaderboard [(1, item_negative)],
      [Call_get_sol_price, Call_get_latest_close_price_in_sol example_mint])"
proof -
  have f: "find_picks db_200 1 = [pick_200]"
    by (simp add: find_picks_def db_200_def pick_200_def)
  have v: "fmul (Fin (- 1)) (Fin 200) = Fin (- 200)" "fmul (Fin 2) (Fin (- 200)) = Fin (- 400)"
    "fsub (Fin (- 400)) (Fin 100) = Fin (- 500)"
    by (simp_all add: fsub_def float_eval)
  have i: "token_item_of market_negative (Fin 200) pick_200 = item_negative"
    by (simp add: token_item_of_def market_negative_def pick_200_def item_negative_def v
        del: fmul.simps)
  have s: "get_sol_price market_negative = Fin 200"
    by (simp add: market_negative_def)
  have m: "mint_address pick_200 = example_mint"
    by (simp add: pick_200_def)
  show ?thesis
    by (simp add: leaderboard_command_def f i s m sort_reverse_single enumerate_eq_zip Let_def)
qed

text \<open>
  Claim C3 says that a live trade price of 0 or less is treated as 0. The leaderboard has
  no check on the trade price: a negative price is multiplied through like any other, and
  the PnL is not minus the cost basis.
\<close>

theorem negative_trade_price_counterexample:
  "\<not> fle (get_sol_price market_negative) (Fin 0) \<and>
   get_sol_price market_negative = Fin 200 \<and>
   find_picks db_200 1 = [pick_200] \<and>
   fle (get_latest_close_price_in_sol market_negative (mint_address pick_200)) (Fin 0) \<and>
   leaderboard_command db_200 market_negative 1 =
     (Reply_Leaderboard [(1, item_negative)],
      [Call_get_sol_price, Call_get_latest_close_price_in_sol example_mint]) \<and>
   item_current_price_usd item_negative = Fin (- 200) \<and>
   item_pnl item_negative = Fin (- 500) \<and>
   fneg (cost_basis_usd pick_200) = Fin (- 100) \<and>
   item_pnl item_negative \<noteq> fneg (cost_basis_usd pick_200)"
proof -
  have f: "find_picks db_200 1 = [pick_200]"
    by (simp add: find_picks_def db_200_def pick_200_def)
  show ?thesis
    by (simp add: leaderboard_command_negative f)
       (simp add: market_negative_def item_negative_def pick_200_def)
qed

lemma is_float64_tiny: "is_float64 (1 / 2 ^ 1074)"
  using round64_fixes_subnormal [of 1] by (simp add: is_float64_def pow2_def)

lemma overflow_tiny: "fdiv (Fin (1 / 2)) (Fin (1 / 2 ^ 1074)) = PInf"
proof -
  have "(1 / 2) / (1 / 2 ^ 1074) = (2 :: real) ^ 1073"
    by simp
  moreover have "round64 (2 ^ 1073) = PInf"
    by (rule round64_overflow) (simp add: pow2_def)
  ultimately show ?thesis by (simp only: fdiv.simps)
qed

lemma handle_contract_address_market_tiny:
  "handle_contract_address empty_db market_tiny 1 7 None example_mint =
     (Reply_PickAdded pick_inf, db_inf,
      [Call_get_sol_price, Call_get_latest_close_price_in_sol example_mint])"
proof -
  have c: "get_latest_close_price_in_sol market_tiny example_mint = Fin (1 / 2 ^ 1074)"
    "get_sol_price market_tiny = Fin 200" "utcnow market_tiny = 5000"
    "store_down market_tiny = False"
    by (simp_all add: market_tiny_def)
  have m: "fmul (Fin (1 / 2)) (Fin 200) = Fin 100"
    by (simp add: float_eval)
  show ?thesis
    by (simp add: handle_contract_address_def strip_example_mint valid_example_mint
        find_one_pick_def empty_db_def insert_one_pick_def c m overflow_tiny Let_def
        username_or_anonymous_def pick_inf_def db_inf_def
        del: fdiv.simps fmul.simps power_numeral)
qed

lemma leaderboard_command_inf:
  "leaderboard_command db_inf market_zero_close 1 =
     (Reply_Leaderboard [(1, item_nan)],
      [Call_get_sol_price, Call_get_latest_close_price_in_sol example_mint])"
proof -
  have f: "find_picks db_inf 1 = [pick_inf]"
    by (simp add: find_picks_def db_inf_def pick_inf_def)
  have i: "token_item_of market_zero_close (Fin 200) pick_inf = item_nan"
    by (simp add: token_item_of_def market_zero_close_def pick_inf_def item_nan_def
        round64_0 fsub_def)
  have s: "get_sol_price market_zero_close = Fin 200"
    by (simp add: market_zero_close_def)
  have m: "mint_address pick_inf = example_mint"
    by (simp add: pick_inf_def)
  show ?thesis
    by (simp add: leaderboard_command_def f i s m sort_reverse_single enumerate_eq_zip Let_def)
qed

text \<open>
  Nor does a live price of exactly 0 always give minus the cost basis. The entry guard
  \<^verbatim>\<open>close_price_sol <= 0\<close> admits the least positive float \<^verbatim>\<open>5e-324\<close>, for which
  \<^verbatim>\<open>0.5 / close_price_sol\<close> overflows: the stored number of tokens is infinite, and its
  product with the price 0.0 is NaN.
\<close>

lemma zero_price_infinite_position:
  "is_float64 (1 / 2 ^ 1074) \<and>
   get_latest_close_price_in_sol market_tiny example_mint = Fin (1 / 2 ^ 1074) \<and>
   handle_contract_address empty_db market_tiny 1 7 None example_mint =
     (Reply_PickAdded pick_inf, db_inf,
      [Call_get_sol_price, Call_get_latest_close_price_in_sol example_mint]) \<and>
   num_tokens pick_inf = PInf \<and>
   get_latest_close_price_in_sol market_zero_close (mint_address pick_inf) = Fin 0 \<and>
   leaderboard_command db_inf market_zero_close 1 =
     (Reply_Leaderboard [(1, item_nan)],
      [Call_get_sol_price, Call_get_latest_close_price_in_sol example_mint]) \<and>
   item_pnl item_nan = NaN \<and>
   fneg (cost_basis_usd pick_inf) = Fin (- 100)"
proof -
  have a: "get_latest_close_price_in_sol market_tiny example_mint = Fin (1 / 2 ^ 1074)"
    by (simp add: market_tiny_def)
  have b: "num_tokens pick_inf = PInf" "fneg (cost_basis_usd pick_inf) = Fin (- 100)"
    by (simp_all add: pick_inf_def)
  have c: "get_latest_close_price_in_sol market_zero_close (mint_address pick_inf) = Fin 0"
    by (simp add: market_zero_close_def)
  have d: "item_pnl item_nan = NaN"
    by (simp add: item_nan_def)
  show ?thesis
    by (intro conjI) (fact is_float64_tiny a handle_contract_address_market_tiny b c
        leaderboard_command_inf d)+
qed

lemma is_float64_uminus: "is_float64 x \<Longrightarrow> is_float64 (- x)"
  by (simp add: is_float64_def round64_uminus)

lemma fsub_zero_left: "is_pyfloat c \<Longrightarrow> fsub (Fin 0) c = fneg c"
  by (cases c) (simp_all add: fsub_def round64_uminus is_float64_def)

lemma token_item_of_zero_price:
  assumes "get_latest_close_price_in_sol e (mint_address p) = Fin 0"
    and "num_tokens p = Fin n" and "is_pyfloat (cost_basis_usd p)"
  shows "item_current_price_usd (token_item_of e (Fin s) p) = Fin 0"
    and "item_pnl (token_item_of e (Fin s) p) = fneg (cost_basis_usd p)"
  using assms by (simp_all add: token_item_of_def Let_def round64_0 fsub_zero_left)

lemma sort_reverse_items_one_failed:
  "sort_reverse item_pnl [item_a, item_b_failed, item_c] = [item_a, item_c, item_b_failed]"
proof -
  have k: "item_pnl item_a = Fin 0" "item_pnl item_b_failed = Fin (- 100)"
    "item_pnl item_c = Fin 0"
    by (simp_all add: item_a_def item_b_failed_def item_c_def)
  show ?thesis
    by (simp add: sort_reverse_def list_sort_def insertion_sort_def k)
qed

lemma token_items_one_failed:
  "token_item_of market_one_failed (Fin 200) pick_a = item_a"
  "token_item_of market_one_failed (Fin 200) pick_b = item_b_failed"
  "token_item_of market_one_failed (Fin 200) pick_c = item_c"
proof -
  have d: "mint_c \<noteq> mint_b" "example_mint \<noteq> mint_b"
    by (simp_all add: mint_b_def mint_c_def example_mint_def)
  show "token_item_of market_one_failed (Fin 200) pick_a = item_a"
    by (simp add: token_item_of_def market_one_failed_def pick_a_def item_a_def fsub_def d
        round64_50 round64_100 round64_0)
  show "token_item_of market_one_failed (Fin 200) pick_b = item_b_failed"
    by (simp add: token_item_of_def market_one_failed_def pick_b_def item_b_failed_def fsub_def
        round64_0 round64_m100)
  show "token_item_of market_one_failed (Fin 200) pick_c = item_c"
    by (simp add: token_item_of_def market_one_failed_def pick_c_def item_c_def fsub_def d
        round64_50 round64_100 round64_0)
qed

lemma leaderboard_command_one_failed:
  "leaderboard_command db_board market_one_failed 1 =
     (Reply_Leaderboard [(1, item_a), (2, item_c), (3, item_b_failed)],
      [Call_get_sol_price, Call_get_latest_close_price_in_sol example_mint,
       Call_get_latest_close_price_in_sol mint_b, Call_get_latest_close_price_in_sol mint_c])"
proof -
  have f: "find_picks db_board 1 = [pick_a, pick_b, pick_c]"
    by (simp add: find_picks_def db_board_def pick_a_def pick_b_def pick_c_def)
  have s: "get_sol_price market_one_failed = Fin 200"
    by (simp add: market_one_failed_def)
  have m: "mint_address pick_a = example_mint" "mint_address pick_b = mint_b"
    "mint_address pick_c = mint_c"
    by (simp_all add: pick_a_def pick_b_def pick_c_def)
  show ?thesis
    by (simp add: leaderboard_command_def f s token_items_one_failed
        sort_reverse_items_one_failed m enumerate_eq_zip upt_conv_Cons)
qed

text \<open>
  Claim C3, amended: in a leaderboard pass with a finite reference price above 0 over at
  least one position, every position whose live trade price is exactly 0, the value the
  price function returns on failure, and whose stored number of tokens is finite gets the
  unit price 0 and the PnL minus its stored cost basis. The pass is not aborted: the trade
  price is read for every position of the chat, in order, and the reply is a leaderboard
  with as many rows as there are positions, up to 10, each the item of a position.
\<close>

theorem zero_trade_price_degrades_one_item:
  assumes "get_sol_price e = Fin s" and "0 < s" and "find_picks d chat \<noteq> []"
  shows "\<exists>rows.
           leaderboard_command d e chat =
             (Reply_Leaderboard rows,
              Call_get_sol_price #
              map (\<lambda>p. Call_get_latest_close_price_in_sol (mint_address p))
                (find_picks d chat)) \<and>
           length rows = min 10 (length (find_picks d chat)) \<and>
           mset (map snd rows) \<subseteq># mset (map (token_item_of e (Fin s)) (find_picks d chat)) \<and>
           (\<forall>p \<in> set (find_picks d chat).
              get_latest_close_price_in_sol e (mint_address p) = Fin 0 \<and>
              (\<exists>n. num_tokens p = Fin n) \<and> is_pyfloat (cost_basis_usd p) \<longrightarrow>
                item_current_price_usd (token_item_of e (Fin s) p) = Fin 0 \<and>
                item_pnl (token_item_of e (Fin s) p) = fneg (cost_basis_usd p))"
proof -
  define rows where "rows = enumerate 1 (take 10 (sort_reverse item_pnl
      (map (token_item_of e (Fin s)) (find_picks d chat))))"
  have l: "leaderboard_command d e chat =
      (Reply_Leaderboard rows,
       Call_get_sol_price #
       map (\<lambda>p. Call_get_latest_close_price_in_sol (mint_address p)) (find_picks d chat))"
    using assms by (simp add: leaderboard_command_def Let_def rows_def)
  note r = ranking [OF rows_def]
  have n: "length rows = min 10 (length (find_picks d chat))"
    using r(3) by simp
  have z: "\<forall>p \<in> set (find_picks d chat).
      get_latest_close_price_in_sol e (mint_address p) = Fin 0 \<and>
      (\<exists>n. num_tokens p = Fin n) \<and> is_pyfloat (cost_basis_usd p) \<longrightarrow>
        item_current_price_usd (token_item_of e (Fin s) p) = Fin 0 \<and>
        item_pnl (token_item_of e (Fin s) p) = fneg (cost_basis_usd p)"
    using token_item_of_zero_price by blast
  from l n r(6) z show ?thesis by blast
qed

theorem zero_trade_price_degrades_one_item_witness:
  "get_sol_price market_one_failed = Fin 200 \<and> find_picks db_board 1 = [pick_a, pick_b, pick_c] \<and>
   get_latest_close_price_in_sol market_one_failed (mint_address pick_a) = Fin (1 / 4) \<and>
   get_latest_close_price_in_sol market_one_failed (mint_address pick_b) = Fin 0 \<and>
   get_latest_close_price_in_sol market_one_failed (mint_address pick_c) = Fin (1 / 4) \<and>
   num_tokens pick_b = Fin 4 \<and> is_pyfloat (cost_basis_usd pick_b) \<and>
   item_current_price_usd (token_item_of market_one_failed (Fin 200) pick_b) = Fin 0 \<and>
   item_pnl (token_item_of market_one_failed (Fin 200) pick_b) = fneg (cost_basis_usd pick_b) \<and>
   fneg (cost_basis_usd pick_b) = Fin (- 100) \<and>
   leaderboard_command db_board market_one_failed 1 =
     (Reply_Leaderboard [(1, item_a), (2, item_c), (3, item_b_failed)],
      [Call_get_sol_price, Call_get_latest_close_price_in_sol example_mint,
       Call_get_latest_close_price_in_sol mint_b, Call_get_latest_close_price_in_sol mint_c]) \<and>
   item_pnl item_a = Fin 0 \<and> item_pnl item_c = Fin 0 \<and> item_pnl item_b_failed = Fin (- 100) \<and>
   (\<exists>rows. fst (leaderboard_command db_board market_one_failed 1) = Reply_Leaderboard rows \<and>
      length rows = 3)"
proof -
  have p: "get_sol_price market_one_failed = Fin 200"
    by (simp add: market_one_failed_def)
  have f: "find_picks db_board 1 = [pick_a, pick_b, pick_c]"
    by (simp add: find_picks_def db_board_def pick_a_def pick_b_def pick_c_def)
  then have ne: "find_picks db_board 1 \<noteq> []" and mem: "pick_b \<in> set (find_picks db_board 1)"
    by simp_all
  have d: "mint_c \<noteq> mint_b" "example_mint \<noteq> mint_b"
    by (simp_all add: mint_b_def mint_c_def example_mint_def)
  have ca: "get_latest_close_price_in_sol market_one_failed (mint_address pick_a) = Fin (1 / 4)"
    by (simp add: market_one_failed_def pick_a_def d)
  have cb: "get_latest_close_price_in_sol market_one_failed (mint_address pick_b) = Fin 0"
    by (simp add: market_one_failed_def pick_b_def)
  have cc: "get_latest_close_price_in_sol market_one_failed (mint_address pick_c) = Fin (1 / 4)"
    by (simp add: market_one_failed_def pick_c_def d)
  have nb: "num_tokens pick_b = Fin 4"
    by (simp add: pick_b_def)
  have fl: "is_pyfloat (cost_basis_usd pick_b)"
    by (simp add: is_float64_def pick_b_def round64_100)
  have ng: "fneg (cost_basis_usd pick_b) = Fin (- 100)"
    by (simp add: pick_b_def)
  from zero_trade_price_degrades_one_item [OF p _ ne]
  obtain rows where
    l: "leaderboard_command db_board market_one_failed 1 =
          (Reply_Leaderboard rows,
           Call_get_sol_price #
           map (\<lambda>p. Call_get_latest_close_price_in_sol (mint_address p))
             (find_picks db_board 1))"
    and n: "length rows = min 10 (length (find_picks db_board 1))"
    and z: "\<forall>p \<in> set (find_picks db_board 1).
              get_latest_close_price_in_sol market_one_failed (mint_address p) = Fin 0 \<and>
              (\<exists>n. num_tokens p = Fin n) \<and> is_pyfloat (cost_basis_usd p) \<longrightarrow>
                item_current_price_usd (token_item_of market_one_failed (Fin 200) p) = Fin 0 \<and>
                item_pnl (token_item_of market_one_failed (Fin 200) p) =
                  fneg (cost_basis_usd p)"
    by auto
  from z mem cb nb fl
  have v: "item_current_price_usd (token_item_of market_one_failed (Fin 200) pick_b) = Fin 0"
    "item_pnl (token_item_of market_one_failed (Fin 200) pick_b) = fneg (cost_basis_usd pick_b)"
    by blast+
  from n f have "length rows = 3" by simp
  with l have e: "\<exists>rows. fst (leaderboard_command db_board market_one_failed 1) =
      Reply_Leaderboard rows \<and> length rows = 3"
    by simp
  have k: "item_pnl item_a = Fin 0" "item_pnl item_c = Fin 0"
    "item_pnl item_b_failed = Fin (- 100)"
    by (simp_all add: item_a_def item_c_def item_b_failed_def)
  show ?thesis
    by (intro conjI) (fact p f ca cb cc nb fl v ng leaderboard_command_one_failed k e)+
qed

section \<open>The share text\<close>

lemmas quote_eval =
  quote_def quote_byte_def utf8_encode_def always_safe_def hex_digit_def in_range_def
  char_of_def bit_Suc_0_iff

lemma str_nat_digit: "n < 10 \<Longrightarrow> str_nat n = [digit_char n]"
  by (simp add: str_nat.simps)

lemma str_nat_step: "10 \<le> n \<Longrightarrow> str_nat n = str_nat (n div 10) @ [digit_char (n mod 10)]"
  by (subst str_nat.simps) simp

lemmas format_eval =
  signed_dollars_def round_half_even_def Let_def digit_char_def
  str_nat_digit str_nat_step str_int_def

lemma str_int_1: "str_int 1 = ''1''"
  by (simp add: format_eval)

lemma str_int_example: "str_int (- 100123) = ''-100123''"
  by (simp add: format_eval)

lemma format_comma_2f_0: "format_comma_2f (Fin 0) = ''0.00''"
  by (simp add: format_eval)

lemma format_comma_2f_example:
  "format_comma_2f (Fin (5302428716536693 / 4294967296)) = ''1,234,567.89''"
  by (simp add: format_eval)

lemma format_comma_2f_tie: "format_comma_2f (Fin (1 / 8)) = ''0.12''"
  by (simp add: format_eval)

lemma signed_dollars_example: "signed_dollars (Fin (- 2001 / 2)) = ''-$1,000.50''"
  by (simp add: format_eval)

lemma signed_dollars_special:
  "signed_dollars PInf = ''+$inf''" "signed_dollars NInf = ''-$inf''"
  "signed_dollars NaN = ''-$nan''"
  by (simp_all add: signed_dollars_def)

lemma quote_example: "quote ''a/b c&d=e+f~g#x'' = ''a/b%20c%26d%3De%2Bf~g%23x''"
  by (simp add: quote_eval)

lemma quote_latin1: "quote [CHR 0xE9, CHR 0xA0, CHR 0x7F] = ''%C3%A9%C2%A0%7F''"
  by (simp add: quote_eval)


lemma share_loop_eq:
  "share_loop e sol ps lines total_pnl =
     (lines @ map (\<lambda>p. mint_address p @ '' => '' @
                         signed_dollars (item_pnl (token_item_of e sol p))) ps,
      foldl fadd total_pnl (map (\<lambda>p. item_pnl (token_item_of e sol p)) ps))"
  by (induction ps arbitrary: lines total_pnl) (simp_all add: Let_def token_item_of_def)

lemma hex_digit_safe:
  assumes "k < 16"
  shows "always_safe (hex_digit k)"
proof -
  from assms have "k = 0 \<or> k = 1 \<or> k = 2 \<or> k = 3 \<or> k = 4 \<or> k = 5 \<or> k = 6 \<or> k = 7 \<or>
      k = 8 \<or> k = 9 \<or> k = 10 \<or> k = 11 \<or> k = 12 \<or> k = 13 \<or> k = 14 \<or> k = 15"
    by arith
  then show ?thesis
    by (elim disjE) (simp_all add: hex_digit_def always_safe_def in_range_def)
qed

lemma quote_byte_chars:
  assumes "c \<in> set (quote_byte b)"
  shows "always_safe c \<or> c = CHR ''/'' \<or> c = CHR ''%''"
proof (cases "always_safe b \<or> b = CHR ''/''")
  case True
  with assms show ?thesis by (auto simp: quote_byte_def)
next
  case False
  have "(of_char b :: nat) < 256" by simp
  then have "(of_char b :: nat) div 16 < 16" "(of_char b :: nat) mod 16 < 16"
    by arith+
  then have "always_safe (hex_digit ((of_char b :: nat) div 16))"
    "always_safe (hex_digit ((of_char b :: nat) mod 16))"
    by (simp_all only: hex_digit_safe)
  with assms False show ?thesis by (auto simp: quote_byte_def)
qed

lemma quote_chars:
  assumes "c \<in> set (quote s)"
  shows "always_safe c \<or> c = CHR ''/'' \<or> c = CHR ''%''"
  using assms by (auto simp: quote_def dest: quote_byte_chars)

lemma reserved_not_safe: "reserved c \<Longrightarrow> \<not> always_safe c \<and> c \<noteq> CHR ''%''"
  by (auto simp: reserved_def always_safe_def in_range_def)

lemma quote_reserved:
  assumes "c \<in> set (quote s)" and "reserved c"
  shows "c = CHR ''/''"
  using quote_chars [OF assms(1)] reserved_not_safe [OF assms(2)] by blast

lemma share_command_link:
  assumes "share_command d e chat user uname = (Reply_ShareLink link, calls)"
  shows "link = twitter_link (quote (tweet_text_of (username_or_anonymous uname) chat
           (map (\<lambda>p. mint_address p @ '' => '' @
                      signed_dollars (item_pnl (token_item_of e (get_sol_price e) p)))
              (find_user_picks d chat user))
           (foldl fadd (Fin 0) (map (\<lambda>p. item_pnl (token_item_of e (get_sol_price e) p))
              (find_user_picks d chat user)))))"
  using assms
  by (auto simp: share_command_def Let_def share_loop_eq split: if_splits)


lemma find_user_picks_db_200: "find_user_picks db_200 1 7 = [pick_200]"
  by (simp add: find_user_picks_def db_200_def pick_200_def)

lemma pnl_pick_200: "item_pnl (token_item_of market_200 (Fin 200) pick_200) = Fin 0"
proof -
  have "fmul (Fin (1 / 4)) (Fin 200) = Fin 50" "fmul (Fin 2) (Fin 50) = Fin 100"
    "fsub (Fin 100) (Fin 100) = Fin 0"
    by (simp_all add: fsub_def float_eval)
  then show ?thesis
    by (simp add: token_item_of_def market_200_def pick_200_def del: fmul.simps)
qed

lemma signed_dollars_0: "signed_dollars (Fin 0) = ''+$0.00''"
  by (simp add: format_eval)

lemma share_command_db_200:
  "share_command db_200 market_200 1 7 uname =
     (Reply_ShareLink (twitter_link (quote (username_or_anonymous uname @
        [CHR 0x27] @ ''s Picks (Chat 1):'' @ [CHR 0x0A, CHR 0x0A] @
        ''So11111111111111111111111111111111111111112 => +$0.00'' @
        [CHR 0x0A, CHR 0x0A] @ ''Total PnL: +$0.00'' @ [CHR 0x0A] @
        ''Shared via #SnipeChecksBot''))),
      [Call_get_sol_price, Call_get_latest_close_price_in_sol example_mint])"
proof -
  have s: "get_sol_price market_200 = Fin 200"
    by (simp add: market_200_def)
  have m: "mint_address pick_200 = example_mint"
    by (simp add: pick_200_def)
  have z: "fadd (Fin 0) (Fin 0) = Fin 0"
    by (simp add: round64_def)
  show ?thesis
    by (simp add: share_command_def find_user_picks_db_200 s m z share_loop_eq pnl_pick_200
        signed_dollars_0 tweet_text_of_def str_int_1 Let_def del: fadd.simps)
       (simp add: example_mint_def)
qed

text \<open>
  Claim C8 says that every reserved character is escaped in the encoded share text.
  \<^verbatim>\<open>quote\<close> is called with its default \<^verbatim>\<open>safe='/'\<close>, so a slash, which is a reserved character
  (a gen-delim of RFC 3986), passes through unescaped: for the user name \<^verbatim>\<open>a/b\<close> the query
  value of the link starts with \<^verbatim>\<open>a/b%27s\<close>.
\<close>

theorem share_text_slash_counterexample:
  "share_command db_200 market_200 1 7 (Some ''a/b'') =
     (Reply_ShareLink
        (''https://twitter.com/intent/tweet?text='' @
         ''a/b%27s%20Picks%20%28Chat%201%29%3A%0A%0ASo11111111111111111111111111111111111111112%20%3D%3E%20%2B%240.00%0A%0ATotal%20PnL%3A%20%2B%240.00%0AShared%20via%20%23SnipeChecksBot''),
      [Call_get_sol_price, Call_get_latest_close_price_in_sol example_mint]) \<and>
   reserved (CHR ''/'') \<and>
   quote ''a/b'' = ''a/b''"
proof -
  have "reserved (CHR ''/'')"
    by (simp add: reserved_def)
  moreover have "quote ''a/b'' = ''a/b''"
    by (simp add: quote_eval)
  moreover have "share_command db_200 market_200 1 7 (Some ''a/b'') =
     (Reply_ShareLink
        (''https://twitter.com/intent/tweet?text='' @
         ''a/b%27s%20Picks%20%28Chat%201%29%3A%0A%0ASo11111111111111111111111111111111111111112%20%3D%3E%20%2B%240.00%0A%0ATotal%20PnL%3A%20%2B%240.00%0AShared%20via%20%23SnipeChecksBot''),
      [Call_get_sol_price, Call_get_latest_close_price_in_sol example_mint])"
    unfolding share_command_db_200
    by (simp add: twitter_link_def username_or_anonymous_def quote_eval)
  ultimately show ?thesis by blast
qed


text \<open>
  Claim C8, amended: the share text is the header line with the user name and the chat, an
  empty line, one line \<^verbatim>\<open><mint> => <signed-$-amount>\<close> per position of the user in ledger order,
  an empty line, the line \<^verbatim>\<open>Total PnL:\<close> with the float sum of the PnL values of the positions,
  and the closing line. The link carries the text percent-encoded by \<^verbatim>\<open>quote\<close>, which is
  defined on every text: the encoded text consists of ASCII letters, digits, \<^verbatim>\<open>_.-~\<close>, \<^verbatim>\<open>/\<close>
  and \<^verbatim>\<open>%\<close> only, so every reserved character other than the slash is escaped.
\<close>

theorem share_text_lines_and_encoding:
  assumes "share_command d e chat user uname = (Reply_ShareLink link, calls)"
  shows "\<exists>tweet.
           link = ''https://twitter.com/intent/tweet?text='' @ quote tweet \<and>
           tweet =
             username_or_anonymous uname @ [CHR 0x27] @ ''s Picks (Chat '' @ str_int chat @
             ''):'' @ [CHR 0x0A, CHR 0x0A] @
             join [CHR 0x0A]
               (map (\<lambda>p. mint_address p @ '' => '' @
                          signed_dollars (item_pnl (token_item_of e (get_sol_price e) p)))
                  (find_user_picks d chat user)) @
             [CHR 0x0A, CHR 0x0A] @ ''Total PnL: '' @
             signed_dollars
               (foldl fadd (Fin 0)
                  (map (\<lambda>p. item_pnl (token_item_of e (get_sol_price e) p))
                     (find_user_picks d chat user))) @
             [CHR 0x0A] @ ''Shared via #SnipeChecksBot'' \<and>
           (\<forall>c \<in> set (quote tweet). always_safe c \<or> c = CHR ''/'' \<or> c = CHR ''%'') \<and>
           (\<forall>c \<in> set (quote tweet). reserved c \<longrightarrow> c = CHR ''/'')"
proof -
  define tweet where "tweet = tweet_text_of (username_or_anonymous uname) chat
           (map (\<lambda>p. mint_address p @ '' => '' @
                      signed_dollars (item_pnl (token_item_of e (get_sol_price e) p)))
              (find_user_picks d chat user))
           (foldl fadd (Fin 0) (map (\<lambda>p. item_pnl (token_item_of e (get_sol_price e) p))
              (find_user_picks d chat user)))"
  have l: "link = ''https://twitter.com/intent/tweet?text='' @ quote tweet"
    using share_command_link [OF assms] by (simp add: tweet_def twitter_link_def)
  have a: "\<forall>c \<in> set (quote tweet). always_safe c \<or> c = CHR ''/'' \<or> c = CHR ''%''"
    using quote_chars by blast
  have r: "\<forall>c \<in> set (quote tweet). reserved c \<longrightarrow> c = CHR ''/''"
    using quote_reserved by blast
  show ?thesis
    apply (rule exI [of _ tweet])
    apply (intro conjI)
       apply (rule l)
      apply (simp add: tweet_def tweet_text_of_def)
     apply (rule a)
    apply (rule r)
    done
qed

theorem share_text_lines_and_encoding_witness:
  "share_command db_200 market_200 1 7 None =
     (Reply_ShareLink
        (''https://twitter.com/intent/tweet?text='' @
         ''Anonymous%27s%20Picks%20%28Chat%201%29%3A%0A%0ASo11111111111111111111111111111111111111112%20%3D%3E%20%2B%240.00%0A%0ATotal%20PnL%3A%20%2B%240.00%0AShared%20via%20%23SnipeChecksBot''),
      [Call_get_sol_price, Call_get_latest_close_price_in_sol example_mint]) \<and>
   (\<exists>tweet. ''Anonymous%27s%20Picks%20%28Chat%201%29%3A%0A%0ASo11111111111111111111111111111111111111112%20%3D%3E%20%2B%240.00%0A%0ATotal%20PnL%3A%20%2B%240.00%0AShared%20via%20%23SnipeChecksBot'' =
      quote tweet \<and>
      (\<forall>c \<in> set (quote tweet). reserved c \<longrightarrow> c = CHR ''/''))"
proof -
  have s: "share_command db_200 market_200 1 7 None =
     (Reply_ShareLink
        (''https://twitter.com/intent/tweet?text='' @
         ''Anonymous%27s%20Picks%20%28Chat%201%29%3A%0A%0ASo11111111111111111111111111111111111111112%20%3D%3E%20%2B%240.00%0A%0ATotal%20PnL%3A%20%2B%240.00%0AShared%20via%20%23SnipeChecksBot''),
      [Call_get_sol_price, Call_get_latest_close_price_in_sol example_mint])"
    unfolding share_command_db_200
    by (simp add: twitter_link_def username_or_anonymous_def quote_eval)
  from share_text_lines_and_encoding [OF s]
  obtain tweet where
    l: "''https://twitter.com/intent/tweet?text='' @
         ''Anonymous%27s%20Picks%20%28Chat%201%29%3A%0A%0ASo11111111111111111111111111111111111111112%20%3D%3E%20%2B%240.00%0A%0ATotal%20PnL%3A%20%2B%240.00%0AShared%20via%20%23SnipeChecksBot'' =
        ''https://twitter.com/intent/tweet?text='' @ quote tweet"
    and r: "\<forall>c \<in> set (quote tweet). reserved c \<longrightarrow> c = CHR ''/''"
    by blast
  from l have "''Anonymous%27s%20Picks%20%28Chat%201%29%3A%0A%0ASo11111111111111111111111111111111111111112%20%3D%3E%20%2B%240.00%0A%0ATotal%20PnL%3A%20%2B%240.00%0AShared%20via%20%23SnipeChecksBot'' =
      quote tweet"
    by (simp only: same_append_eq)
  with r s show ?thesis by blast
qed

section \<open>The stored numbers are floats\<close>

text \<open>
  Every position the bot stores carries the results of a float multiplication and a float
  division, so in every ledger built from the empty one by the handlers the cost basis and
  the number of tokens of every position are floats, infinities or NaN, as the amended
  claim C3 assumes of the cost basis of the positions it values.
\<close>

lemma handle_contract_address_float_picks:
  assumes "float_picks d"
  shows "float_picks (fst (snd (handle_contract_address d e chat user uname t)))"
  using assms
  by (auto simp: handle_contract_address_def insert_one_pick_def Let_def float_picks_def
      is_pyfloat_ops split: if_splits option.splits)

lemma dispatch_float_picks:
  assumes "float_picks d"
  shows "float_picks (fst (snd (dispatch d e u)))"
proof (cases "content u")
  case (Text_message t)
  then show ?thesis
    using handle_contract_address_float_picks [OF assms] by (simp add: dispatch_def)
next
  case (Cmd_register_wallet args)
  then show ?thesis
    using assms by (simp add: dispatch_def float_picks_def register_wallet_command_picks)
qed (use assms in \<open>simp_all add: dispatch_def split: prod.splits\<close>)

lemma run_float_picks: "float_picks d \<Longrightarrow> float_picks (run d evs)"
  by (induction evs arbitrary: d) (auto simp: dispatch_float_picks)

lemma run_from_empty_float_picks:
  "p \<in> set (picks_collection (run empty_db evs)) \<Longrightarrow>
     is_pyfloat (cost_basis_usd p) \<and> is_pyfloat (num_tokens p)"
proof -
  have "float_picks empty_db" by (simp add: float_picks_def empty_db_def)
  then have "float_picks (run empty_db evs)" by (rule run_float_picks)
  then show "p \<in> set (picks_collection (run empty_db evs)) \<Longrightarrow>
      is_pyfloat (cost_basis_usd p) \<and> is_pyfloat (num_tokens p)"
    by (simp add: float_picks_def)
qed

end
